theory Spec2Isabelle
  imports Main
begin

section \<open>Python strings\<close>

text \<open>
  A Python 3 \<open>str\<close> is a sequence of Unicode code points; \<open>len\<close> counts code points.
  The source holds the literals U+2022 (bullet) and U+2588 (full block), which no 8-bit
  character can carry, so a string is a list of code points, each a natural number.
  \<open>ascii\<close> embeds an ASCII literal.
\<close>

type_synonym str = "nat list"

definition ascii :: "string \<Rightarrow> str" where
  "ascii s = map of_char s"

definition SPACE :: nat where
  "SPACE = 32"

definition NEWLINE :: nat where
  "NEWLINE = 10"

text \<open>\<open>len(s)\<close>, a Python int.\<close>

definition len :: "'a list \<Rightarrow> int" where
  "len xs = int (length xs)"

text \<open>\<open>s.count(" ")\<close>: the occurrences of one character never overlap.\<close>

definition count_spaces :: "str \<Rightarrow> int" where
  "count_spaces s = int (count_list s SPACE)"

text \<open>\<open>d.get(key, "")\<close> on an optional string field.\<close>

definition get_str :: "str option \<Rightarrow> str" where
  "get_str v = (case v of None \<Rightarrow> [] | Some s \<Rightarrow> s)"

text \<open>\<open>c * n\<close> for a one-character string \<open>c\<close>; a negative count gives the empty string.\<close>

definition repeat :: "nat \<Rightarrow> int \<Rightarrow> str" where
  "repeat c n = replicate (nat n) c"

text \<open>\<open>sep.join(xs)\<close>\<close>

fun join :: "str \<Rightarrow> str list \<Rightarrow> str" where
  "join sep [] = []"
| "join sep [x] = x"
| "join sep (x # y # ys) = x @ sep @ join sep (y # ys)"

text \<open>\<open>s.ljust(width, fill)\<close>: \<open>s\<close> itself when it is \<open>width\<close> long or longer.\<close>

definition ljust :: "str \<Rightarrow> int \<Rightarrow> nat \<Rightarrow> str" where
  "ljust s width fill = s @ replicate (nat width - length s) fill"

text \<open>
  \<open>s.splitlines()\<close>. The line boundaries of a \<open>str\<close> are LF, VT, FF, CR, CR LF (one
  boundary), FS, GS, RS, NEL, LS and PS. A boundary ends the line before it, so a
  string that ends in one has no empty last line, and the empty string has no line.
\<close>

definition is_linebreak :: "nat \<Rightarrow> bool" where
  "is_linebreak c = (c = 10 \<or> c = 11 \<or> c = 12 \<or> c = 13 \<or> c = 28 \<or> c = 29 \<or> c = 30
                     \<or> c = 133 \<or> c = 8232 \<or> c = 8233)"

definition skip_break :: "nat \<Rightarrow> str \<Rightarrow> str" where
  "skip_break c cs = (case cs of [] \<Rightarrow> [] | d # ds \<Rightarrow> if c = 13 \<and> d = 10 then ds else cs)"

function split_from :: "str \<Rightarrow> str \<Rightarrow> str list" where
  "split_from cur [] = (if cur = [] then [] else [cur])"
| "split_from cur (c # cs) =
     (if is_linebreak c then cur # split_from [] (skip_break c cs)
      else split_from (cur @ [c]) cs)"
  by pat_completeness auto
termination
  by (relation "measure (\<lambda>(cur, s). length s)")
     (auto simp: skip_break_def split: list.splits)

definition splitlines :: "str \<Rightarrow> str list" where
  "splitlines s = split_from [] s"

text \<open>
  \<open>int(n / d)\<close> for a non-negative int \<open>n\<close> and \<open>d\<close> a power of two, as the source
  takes it of the terminal size with 4 and 2. \<open>n / d\<close> is the double nearest to the
  quotient, ties going to the even significand. Dividing by a power of two keeps the
  significand, so this is the double nearest to \<open>n\<close>, which \<open>round53\<close> gives, divided by
  \<open>d\<close>; \<open>int\<close> then drops the fraction. Below \<open>2 ^ 53\<close> every \<open>n\<close> is a double and the
  result is \<open>n div d\<close>. When the double would be \<open>2 ^ 1024\<close> or more, \<open>n / d\<close> raises
  \<open>OverflowError\<close>.
\<close>

function bitlen :: "nat \<Rightarrow> nat" where
  "bitlen n = (if n = 0 then 0 else Suc (bitlen (n div 2)))"
  by pat_completeness auto
termination
  by (relation "measure (\<lambda>n. n)") auto

definition round53 :: "nat \<Rightarrow> nat" where
  "round53 n =
     (if n < 2 ^ 53 then n
      else
        let e = bitlen n - 53;
            q = n div 2 ^ e;
            r = n mod 2 ^ e;
            half = 2 ^ (e - 1)
        in (if half < r \<or> (r = half \<and> odd q) then q + 1 else q) * 2 ^ e)"

definition int_quotient :: "nat \<Rightarrow> nat \<Rightarrow> int" where
  "int_quotient n d = int (round53 n div d)"

definition quotient_overflows :: "nat \<Rightarrow> nat \<Rightarrow> bool" where
  "quotient_overflows n d = (d * 2 ^ 1024 \<le> round53 n)"

section \<open>Errors\<close>

text \<open>
  Every exception the source can raise is a value. The four \<open>ValueError\<close>s of the source
  differ in their message: \<open>ValueError_element n name\<close> is
  \<open>"(Slide n) name is not supported"\<close>, \<open>ValueError_effect\<close> and \<open>ValueError_color\<close>
  carry the unsupported name, \<open>ValueError_effects_colors\<close> and \<open>ValueError_effects_code\<close>
  are the two conflicts of a slide, and \<open>ValueError_max_empty\<close> is \<open>max\<close> of an empty
  sequence. \<open>KeyError\<close> carries the key. \<open>Unmodelled\<close> marks an input on which the model
  does not follow Python: a type tag that is not ASCII, that does not yield a single
  name, or whose name is bound to something other than one of the seven dataclasses.
\<close>

datatype error =
    KeyError string
  | IndexError
  | NameError
  | NotImplementedError
  | OverflowError
  | FileNotFoundError str
  | ValueError_max_empty
  | ValueError_element int str
  | ValueError_effect str
  | ValueError_color str
  | ValueError_effects_colors
  | ValueError_effects_code
  | Unmodelled

text \<open>\<open>d[key]\<close> on an optional field.\<close>

definition getitem :: "string \<Rightarrow> 'a option \<Rightarrow> error + 'a" where
  "getitem k v = (case v of None \<Rightarrow> Inl (KeyError k) | Some x \<Rightarrow> Inr x)"

text \<open>\<open>max(xs)\<close> raises on an empty sequence.\<close>

definition py_max :: "int list \<Rightarrow> error + int" where
  "py_max xs = (case xs of [] \<Rightarrow> Inl ValueError_max_empty | x # ys \<Rightarrow> Inr (fold max ys x))"

section \<open>AST nodes\<close>

text \<open>
  A node of the AST that the markdown parser returns: a dict with the key \<open>type\<close> and,
  depending on the type, \<open>text\<close>, \<open>children\<close>, \<open>level\<close>, \<open>src\<close> and \<open>alt\<close>. \<open>None\<close> is an
  absent key.
\<close>

datatype node = Node (ntype: str) (ntext: "str option") (nchildren: "node list option")
  (nlevel: "int option") (nsrc: "str option") (nalt: "str option")

section \<open>Codio: the scripted terminal session\<close>

text \<open>
  The object loaded from the YAML script: \<open>speed\<close> and \<open>lines\<close>, each line a dict whose
  keys are all optional. \<open>None\<close> is an absent key. The key \<open>in\<close> is the field \<open>inp\<close>.
\<close>

record codio_line =
  prompt :: "str option"
  inp :: "str option"
  out :: "str option"
  color :: "str option"
  bold :: "bool option"
  underline :: "bool option"
  progress :: "bool option"
  progressChar :: "str option"

record codio_script =
  speed :: int
  lines :: "codio_line list"

text \<open>\<open>l.get("progress") is not None and l["progress"]\<close>\<close>

definition progress_set :: "codio_line \<Rightarrow> bool" where
  "progress_set l = (case progress l of None \<Rightarrow> False | Some b \<Rightarrow> b)"

text \<open>
  \<open>Codio.width\<close>. \<open>tw\<close> is \<open>int(shutil.get_terminal_size()[0] / 4)\<close>; the loop carries
  \<open>_width\<close>, starting at 0. \<open>Codio_width\<close> is the value of the property where the
  division does not overflow; \<open>Codio_render_obj\<close> below returns the \<open>OverflowError\<close>.
\<close>

definition terminal_quarter :: "nat \<Rightarrow> int" where
  "terminal_quarter cols = int_quotient cols 4"

definition width_step :: "int \<Rightarrow> codio_line \<Rightarrow> int \<Rightarrow> int" where
  "width_step tw l w =
     (let prompt' = get_str (prompt l);
          inp' = get_str (inp l);
          out' = get_str (out l);
          magic_width = (if progress_set l then tw else 0)
      in max w (max magic_width (max (len prompt')
           (max (len inp' + count_spaces inp') (len out' + count_spaces out')))))"

fun width_loop :: "int \<Rightarrow> codio_line list \<Rightarrow> int \<Rightarrow> int" where
  "width_loop tw [] w = w"
| "width_loop tw (l # ls) w = width_loop tw ls (width_step tw l w)"

definition Codio_width :: "nat \<Rightarrow> codio_script \<Rightarrow> int" where
  "Codio_width cols obj = width_loop (terminal_quarter cols) (lines obj) 0 + 4"

text \<open>\<open>Codio.size\<close>: the loop adds one for each line whose \<open>in\<close> and \<open>out\<close> are both truthy.\<close>

definition size_step :: "codio_line \<Rightarrow> int \<Rightarrow> int" where
  "size_step l n =
     (let inp' = get_str (inp l); out' = get_str (out l)
      in if inp' \<noteq> [] \<and> out' \<noteq> [] then n + 1 else n)"

fun size_loop :: "codio_line list \<Rightarrow> int \<Rightarrow> int" where
  "size_loop [] n = n"
| "size_loop (l # ls) n = size_loop ls (size_step l n)"

definition Codio_size :: "codio_script \<Rightarrow> int" where
  "Codio_size obj = size_loop (lines obj) (len (lines obj)) + 2"

text \<open>
  A frame of \<open>Codio.render\<close>: the dict \<open>_c\<close>. The keys \<open>color\<close>, \<open>bold\<close> and \<open>underline\<close>
  are set on every frame but a progress bar's, so \<open>f_style\<close> is \<open>None\<close> there.
\<close>

record frame_style =
  f_color :: "str option"
  f_bold :: "bool option"
  f_underline :: "bool option"

record frame =
  f_prompt :: str
  f_in :: str
  f_out :: str
  f_style :: "frame_style option"

text \<open>
  \<open>progress_char * int(0.6 * _width)\<close>. The product is a double; for every width from 0 to
  2000000 its truncation is \<open>3 * width div 5\<close>, which the model takes. A negative count
  repeats nothing, as \<open>nat\<close> does.
\<close>

definition progress_bar :: "str \<Rightarrow> int \<Rightarrow> str" where
  "progress_bar c w = concat (replicate (nat (3 * w div 5)) c)"

definition FULL_BLOCK :: str where
  "FULL_BLOCK = [9608]"

text \<open>One pass of the loop body of \<open>Codio.render\<close>; \<open>None\<close> is \<open>continue\<close>.\<close>

definition render_line :: "int \<Rightarrow> codio_line \<Rightarrow> frame option" where
  "render_line w line =
     (if progress_set line then
        Some \<lparr>f_prompt = [],
              f_in = progress_bar (case progressChar line of None \<Rightarrow> FULL_BLOCK | Some c \<Rightarrow> c) w,
              f_out = [], f_style = None\<rparr>
      else
        let prompt' = get_str (prompt line);
            inp' = get_str (inp line);
            out' = get_str (out line)
        in if \<not> (prompt' \<noteq> [] \<or> inp' \<noteq> [] \<or> out' \<noteq> []) then None
           else
             let only_prompt = (prompt' \<noteq> [] \<and> \<not> inp' \<noteq> [] \<and> \<not> out' \<noteq> []);
                 out'' = (if only_prompt then prompt' else out');
                 prompt'' = (if only_prompt then [] else prompt')
             in Some \<lparr>f_prompt = prompt'', f_in = inp', f_out = out'',
                      f_style = Some \<lparr>f_color = color line, f_bold = bold line,
                                       f_underline = underline line\<rparr>\<rparr>)"

fun render_loop :: "int \<Rightarrow> codio_line list \<Rightarrow> frame list \<Rightarrow> frame list" where
  "render_loop w [] code = code"
| "render_loop w (line # ls) code =
     (case render_line w line of
        None \<Rightarrow> render_loop w ls code
      | Some c \<Rightarrow> render_loop w ls (code @ [c]))"

definition Codio_render :: "nat \<Rightarrow> codio_script \<Rightarrow> frame list" where
  "Codio_render cols obj = render_loop (Codio_width cols obj) (lines obj) []"

section \<open>The environment\<close>

text \<open>
  What the source reads from outside itself: the terminal size
  (\<open>shutil.get_terminal_size()\<close>), \<open>Figlet().renderText\<close>, \<open>os.path.exists\<close>, opening a
  file and loading it as YAML (\<open>None\<close> when the file does not exist), the tables
  \<open>EFFECTS\<close> and \<open>COLORMAP\<close> of the module \<open>effects\<close>, and \<open>str.isalnum\<close> beyond ASCII
  (for \<open>\w\<close>).
\<close>

record env =
  terminal_columns :: nat
  terminal_lines :: nat
  renderText :: "str \<Rightarrow> str"
  path_exists :: "str \<Rightarrow> bool"
  load_yaml :: "str \<Rightarrow> codio_script option"
  EFFECTS :: "str list"
  COLORMAP :: "(str \<times> int) list"
  unicode_alnum :: "nat \<Rightarrow> bool"

section \<open>Elements\<close>

text \<open>
  An element is an instance of one of the seven dataclasses, with its \<open>obj\<close>. \<open>obj\<close> is an
  AST node, or for \<open>Codio\<close> the loaded script. Both are dicts, read by key.
\<close>

datatype cls = Heading | Text | List | BlockCode | Codio | Image | BlockHtml

datatype obj = Ast node | Yaml codio_script

record element =
  ecls :: cls
  eobj :: obj

text \<open>The field \<open>type\<close>: each dataclass's default, which no caller overrides.\<close>

definition etype :: "element \<Rightarrow> string" where
  "etype e = (case ecls e of Heading \<Rightarrow> ''heading'' | Text \<Rightarrow> ''text'' | List \<Rightarrow> ''list''
              | BlockCode \<Rightarrow> ''code'' | Codio \<Rightarrow> ''codio'' | Image \<Rightarrow> ''image''
              | BlockHtml \<Rightarrow> ''html'')"

definition get_text :: "obj \<Rightarrow> str option" where
  "get_text d = (case d of Ast n \<Rightarrow> ntext n | Yaml s \<Rightarrow> None)"

definition get_children :: "obj \<Rightarrow> node list option" where
  "get_children d = (case d of Ast n \<Rightarrow> nchildren n | Yaml s \<Rightarrow> None)"

definition get_level :: "obj \<Rightarrow> int option" where
  "get_level d = (case d of Ast n \<Rightarrow> nlevel n | Yaml s \<Rightarrow> None)"

definition get_src :: "obj \<Rightarrow> str option" where
  "get_src d = (case d of Ast n \<Rightarrow> nsrc n | Yaml s \<Rightarrow> None)"

text \<open>\<open>self.obj["lines"]\<close>: a loaded script has the key, an AST node does not.\<close>

definition as_script :: "obj \<Rightarrow> error + codio_script" where
  "as_script d = (case d of Ast n \<Rightarrow> Inl (KeyError ''lines'') | Yaml s \<Rightarrow> Inr s)"

subsection \<open>Heading\<close>

text \<open>\<open>self.obj["children"][0]["text"]\<close>\<close>

definition first_child_text :: "obj \<Rightarrow> error + str" where
  "first_child_text d =
     (case getitem ''children'' (get_children d) of
        Inl e \<Rightarrow> Inl e
      | Inr [] \<Rightarrow> Inl IndexError
      | Inr (c # cs) \<Rightarrow> getitem ''text'' (ntext c))"

definition Heading_size :: "env \<Rightarrow> obj \<Rightarrow> error + int" where
  "Heading_size E d =
     (case getitem ''level'' (get_level d) of
        Inl e \<Rightarrow> Inl e
      | Inr level \<Rightarrow>
          if level = 1 then
            (case first_child_text d of
               Inl e \<Rightarrow> Inl e
             | Inr t \<Rightarrow> Inr (len (splitlines (renderText E t))))
          else if level = 2 then Inr 2
          else Inr 1)"

definition Heading_render :: "env \<Rightarrow> obj \<Rightarrow> error + str" where
  "Heading_render E d =
     (case first_child_text d of
        Inl e \<Rightarrow> Inl e
      | Inr t \<Rightarrow>
          (case getitem ''level'' (get_level d) of
             Inl e \<Rightarrow> Inl e
           | Inr level \<Rightarrow>
               if level = 1 then Inr (renderText E t)
               else if level = 2 then Inr (join [NEWLINE] [t, repeat 45 (len t)])
               else Inr t))"

subsection \<open>Text\<close>

definition Text_size :: "obj \<Rightarrow> error + int" where
  "Text_size d = Inr 1"

definition Text_render :: "obj \<Rightarrow> error + str" where
  "Text_render d = getitem ''text'' (get_text d)"

subsection \<open>List\<close>

definition BULLET :: str where
  "BULLET = [8226, 32]"

text \<open>
  \<open>List.walk\<close> appends to the list \<open>text\<close> in place and hands the same list to its
  nested calls. Lists that are shared in this way live in a store, and \<open>text\<close> is the
  place of the list in it. A new list takes the next free place; the store only grows,
  and what earlier calls left in it stays there.
\<close>

type_synonym store = "str list list"

definition new_list :: "store \<Rightarrow> nat \<times> store" where
  "new_list h = (length h, h @ [[]])"

text \<open>
  The loop of \<open>walk\<close> when \<open>text\<close> is a list: \<open>text.append(...)\<close> for a child with a text,
  then the nested call. \<open>"children" in obj\<close> holds whenever the loop body runs.
\<close>

function walk :: "node \<Rightarrow> nat \<Rightarrow> int \<Rightarrow> store \<Rightarrow> store" where
  "walk obj text level h =
     fold (\<lambda>child h'.
             walk child text (level + 1)
               (case ntext child of None \<Rightarrow> h'
                | Some t \<Rightarrow> h'[text := h' ! text @ [repeat SPACE (2 * level) @ BULLET @ t]]))
          (case nchildren obj of None \<Rightarrow> [] | Some cs \<Rightarrow> cs) h"
  by pat_completeness auto
termination
proof (relation "measure (\<lambda>(obj, a, level, h). size obj)")
  show "wf (measure (\<lambda>(obj, a, level, h). size obj))"
    by simp
next
  fix obj :: node and a :: nat and level :: int and h :: store and child :: node
    and h' :: store
  assume "child \<in> set (case nchildren obj of None \<Rightarrow> [] | Some cs \<Rightarrow> cs)"
  then obtain cs where cs: "nchildren obj = Some cs" and mem: "child \<in> set cs"
    by (cases "nchildren obj") auto
  have "size child \<le> size_list size cs"
    using mem by (simp add: size_list_estimation')
  also have "\<dots> < size obj"
    using cs by (cases obj) simp
  finally show "((child, a, level + 1,
       case ntext child of None \<Rightarrow> h'
       | Some t \<Rightarrow> h'[a := h' ! a @ [repeat SPACE (2 * level) @ BULLET @ t]]),
       obj, a, level, h) \<in> measure (\<lambda>(obj, a, level, h). size obj)"
    by simp
qed

declare walk.simps [simp del]

text \<open>
  \<open>self.walk(self.obj)\<close>: \<open>text\<close> is \<open>None\<close>, so the call makes a new list, walks and
  returns that list. A loaded script has no key \<open>children\<close>, and nothing is appended.
\<close>

definition walk_obj :: "obj \<Rightarrow> store \<Rightarrow> nat \<times> store" where
  "walk_obj d h =
     (let (text, h1) = new_list h
      in (text, case d of Ast n \<Rightarrow> walk n text 0 h1 | Yaml s \<Rightarrow> h1))"

definition List_size :: "obj \<Rightarrow> store \<Rightarrow> (error + int) \<times> store" where
  "List_size d h = (let (text, h') = walk_obj d h in (Inr (len (h' ! text)), h'))"

definition List_render :: "obj \<Rightarrow> store \<Rightarrow> (error + str) \<times> store" where
  "List_render d h = (let (text, h') = walk_obj d h in (Inr (join [NEWLINE] (h' ! text)), h'))"

subsection \<open>BlockCode\<close>

text \<open>\<open>BlockCode.pad\<close>; \<open>pad_lines\<close> is the list \<open>lines\<close> that it joins.\<close>

definition pad_lines :: "str \<Rightarrow> nat \<Rightarrow> error + str list" where
  "pad_lines s fill =
     (let lines0 = splitlines s in
      case py_max (map len lines0) of
        Inl e \<Rightarrow> Inl e
      | Inr max_len \<Rightarrow>
          let top = repeat SPACE (max_len + 2);
              bottom = top;
              lines1 = map (\<lambda>l. ljust l (max_len + 1) fill) lines0;
              lines2 = map (\<lambda>l. SPACE # l) lines1
          in Inr (top # lines2 @ [bottom]))"

definition pad :: "str \<Rightarrow> nat \<Rightarrow> error + str" where
  "pad s fill = (case pad_lines s fill of Inl e \<Rightarrow> Inl e | Inr ls \<Rightarrow> Inr (join [NEWLINE] ls))"

definition BlockCode_size :: "obj \<Rightarrow> error + int" where
  "BlockCode_size d =
     (case getitem ''text'' (get_text d) of Inl e \<Rightarrow> Inl e | Inr t \<Rightarrow> Inr (len (splitlines t)))"

definition BlockCode_render :: "obj \<Rightarrow> error + str" where
  "BlockCode_render d =
     (case getitem ''text'' (get_text d) of Inl e \<Rightarrow> Inl e | Inr t \<Rightarrow> pad t SPACE)"

subsection \<open>Codio, Image and BlockHtml\<close>

definition Codio_size_obj :: "obj \<Rightarrow> error + int" where
  "Codio_size_obj d =
     (case as_script d of Inl e \<Rightarrow> Inl e | Inr s \<Rightarrow> Inr (Codio_size s))"

definition Codio_render_obj :: "env \<Rightarrow> obj \<Rightarrow> error + frame list" where
  "Codio_render_obj E d =
     (case as_script d of
        Inl e \<Rightarrow> Inl e
      | Inr s \<Rightarrow>
          if quotient_overflows (terminal_columns E) 4 then Inl OverflowError
          else Inr (Codio_render (terminal_columns E) s))"

text \<open>\<open>int(shutil.get_terminal_size()[1] / 2)\<close>\<close>

definition Image_size :: "env \<Rightarrow> obj \<Rightarrow> error + int" where
  "Image_size E d =
     (if quotient_overflows (terminal_lines E) 2 then Inl OverflowError
      else Inr (int_quotient (terminal_lines E) 2))"

definition BlockHtml_size :: "obj \<Rightarrow> error + int" where
  "BlockHtml_size d = Inl NotImplementedError"

subsection \<open>The two capabilities of every element\<close>

text \<open>
  \<open>size\<close> and \<open>render\<close> of an element, in a store and returning the store they leave.
  They read \<open>obj\<close> and assign no attribute, so the element is the same after the call;
  only \<open>List\<close> writes to the store. The lists that \<open>BlockCode.pad\<close> and \<open>Codio.render\<close>
  build are handed to no other call and are values of the model.
\<close>

definition size_of :: "env \<Rightarrow> element \<Rightarrow> store \<Rightarrow> (error + int) \<times> store" where
  "size_of E e h =
     (case ecls e of
        Heading \<Rightarrow> (Heading_size E (eobj e), h)
      | Text \<Rightarrow> (Text_size (eobj e), h)
      | List \<Rightarrow> List_size (eobj e) h
      | BlockCode \<Rightarrow> (BlockCode_size (eobj e), h)
      | Codio \<Rightarrow> (Codio_size_obj (eobj e), h)
      | Image \<Rightarrow> (Image_size E (eobj e), h)
      | BlockHtml \<Rightarrow> (BlockHtml_size (eobj e), h))"

datatype rendered = Blob str | Frames "frame list"

definition blob :: "error + str \<Rightarrow> error + rendered" where
  "blob r = (case r of Inl e \<Rightarrow> Inl e | Inr s \<Rightarrow> Inr (Blob s))"

definition render_of :: "env \<Rightarrow> element \<Rightarrow> store \<Rightarrow> (error + rendered) \<times> store" where
  "render_of E e h =
     (case ecls e of
        Heading \<Rightarrow> (blob (Heading_render E (eobj e)), h)
      | Text \<Rightarrow> (blob (Text_render (eobj e)), h)
      | List \<Rightarrow> (let (r, h') = List_render (eobj e) h in (blob r, h'))
      | BlockCode \<Rightarrow> (blob (BlockCode_render (eobj e)), h)
      | Codio \<Rightarrow>
          ((case Codio_render_obj E (eobj e) of Inl x \<Rightarrow> Inl x | Inr fs \<Rightarrow> Inr (Frames fs)), h)
      | Image \<Rightarrow> (Inl NotImplementedError, h)
      | BlockHtml \<Rightarrow> (Inl NotImplementedError, h))"

section \<open>Slide\<close>

subsection \<open>The style directive\<close>

text \<open>
  \<open>BlockHtml.style\<close>: \<open>re.findall(r"((\w+)=(\w+))", text)\<close>, then a dict from the second
  group to the third. \<open>\w\<close> on a \<open>str\<close> is a letter, a digit or the underscore; \<open>=\<close> is
  none of them, so a greedy \<open>\w+\<close> that is not followed by \<open>=\<close> cannot match after
  backtracking either. \<open>match_at\<close> is one attempt at a position: the pair of groups and
  the text after the match.
\<close>

definition ascii_alnum :: "nat \<Rightarrow> bool" where
  "ascii_alnum c = ((48 \<le> c \<and> c \<le> 57) \<or> (65 \<le> c \<and> c \<le> 90) \<or> (97 \<le> c \<and> c \<le> 122))"

definition word_char :: "env \<Rightarrow> nat \<Rightarrow> bool" where
  "word_char E c = (if c < 128 then ascii_alnum c \<or> c = 95 else unicode_alnum E c)"

definition match_at :: "(nat \<Rightarrow> bool) \<Rightarrow> str \<Rightarrow> ((str \<times> str) \<times> str) option" where
  "match_at w s =
     (let key = takeWhile w s in
      case dropWhile w s of
        [] \<Rightarrow> None
      | c # cs \<Rightarrow>
          let val = takeWhile w cs in
          if key \<noteq> [] \<and> c = 61 \<and> val \<noteq> [] then Some ((key, val), dropWhile w cs)
          else None)"

function findall :: "(nat \<Rightarrow> bool) \<Rightarrow> str \<Rightarrow> (str \<times> str) list" where
  "findall w [] = []"
| "findall w (c # cs) =
     (case match_at w (c # cs) of
        None \<Rightarrow> findall w cs
      | Some (kv, rest) \<Rightarrow> kv # findall w rest)"
  by pat_completeness auto
termination
proof (relation "measure (\<lambda>(w, s). length s)")
  show "wf (measure (\<lambda>(w, s). length s))"
    by simp
next
  fix w :: "nat \<Rightarrow> bool" and c :: nat and cs :: str
  show "((w, cs), w, c # cs) \<in> measure (\<lambda>(w, s). length s)"
    by simp
next
  fix w :: "nat \<Rightarrow> bool" and c :: nat and cs :: str and x2 :: "(str \<times> str) \<times> str"
    and kv :: "str \<times> str" and rest :: str
  assume m: "match_at w (c # cs) = Some x2" and x2: "(kv, rest) = x2"
  from m x2 obtain d ds where d: "dropWhile w (c # cs) = d # ds" and r: "rest = dropWhile w ds"
    unfolding match_at_def Let_def by (auto split: list.splits if_splits)
  have "length rest \<le> length ds"
    unfolding r by (rule length_dropWhile_le)
  also have "\<dots> < length (dropWhile w (c # cs))"
    unfolding d by simp
  also have "\<dots> \<le> length (c # cs)"
    by (rule length_dropWhile_le)
  finally show "((w, rest), w, c # cs) \<in> measure (\<lambda>(w, s). length s)"
    by simp
qed

text \<open>The dict comprehension: a key that occurs twice keeps the later value.\<close>

definition BlockHtml_style :: "env \<Rightarrow> obj \<Rightarrow> error + (str \<rightharpoonup> str)" where
  "BlockHtml_style E d =
     (case getitem ''text'' (get_text d) of
        Inl e \<Rightarrow> Inl e
      | Inr t \<Rightarrow> Inr (map_of (rev (findall (word_char E) t))))"

subsection \<open>Construction\<close>

record slide =
  elements :: "element list"
  has_style :: bool
  has_effect :: bool
  has_image :: bool
  has_code :: bool
  has_codio :: bool
  style :: "str \<rightharpoonup> str"
  effect :: "str option"
  fg_color :: int
  bg_color :: int

text \<open>The attributes as \<open>__init__\<close> sets them before its loop.\<close>

definition new_slide :: "element list \<Rightarrow> slide" where
  "new_slide es = \<lparr>elements = es, has_style = False, has_effect = False, has_image = False,
     has_code = False, has_codio = False, style = Map.empty, effect = None,
     fg_color = 0, bg_color = 7\<rparr>"

text \<open>The body of \<open>for e in elements\<close>.\<close>

definition scan_element :: "env \<Rightarrow> element \<Rightarrow> slide \<Rightarrow> error + slide" where
  "scan_element E e s =
     (case (if etype e = ''html'' then
              (case BlockHtml_style E (eobj e) of
                 Inl x \<Rightarrow> Inl x
               | Inr st \<Rightarrow> Inr (s\<lparr>has_style := True, style := st\<rparr>))
            else Inr s) of
        Inl x \<Rightarrow> Inl x
      | Inr s1 \<Rightarrow>
          let s2 = (if etype e = ''image'' then s1\<lparr>has_image := True\<rparr> else s1);
              s3 = (if etype e = ''code'' then s2\<lparr>has_code := True\<rparr> else s2);
              s4 = (if etype e = ''codio'' then s3\<lparr>has_codio := True\<rparr> else s3)
          in Inr s4)"

fun scan_elements :: "env \<Rightarrow> element list \<Rightarrow> slide \<Rightarrow> error + slide" where
  "scan_elements E [] s = Inr s"
| "scan_elements E (e # es) s =
     (case scan_element E e s of Inl x \<Rightarrow> Inl x | Inr s' \<Rightarrow> scan_elements E es s')"

text \<open>The three lookups of the style, in the source's order.\<close>

definition check_effect :: "env \<Rightarrow> slide \<Rightarrow> error + slide" where
  "check_effect E s =
     (case style s (ascii ''effect'') of
        None \<Rightarrow> Inr s
      | Some name \<Rightarrow>
          if name \<notin> set (EFFECTS E) then Inl (ValueError_effect name)
          else Inr (s\<lparr>has_effect := True, effect := Some name\<rparr>))"

definition check_fg :: "env \<Rightarrow> slide \<Rightarrow> error + slide" where
  "check_fg E s =
     (case style s (ascii ''fg'') of
        None \<Rightarrow> Inr s
      | Some name \<Rightarrow>
          (case map_of (COLORMAP E) name of
             None \<Rightarrow> Inl (ValueError_color name)
           | Some c \<Rightarrow> Inr (s\<lparr>fg_color := c\<rparr>)))"

definition check_bg :: "env \<Rightarrow> slide \<Rightarrow> error + slide" where
  "check_bg E s =
     (case style s (ascii ''bg'') of
        None \<Rightarrow> Inr s
      | Some name \<Rightarrow>
          (case map_of (COLORMAP E) name of
             None \<Rightarrow> Inl (ValueError_color name)
           | Some c \<Rightarrow> Inr (s\<lparr>bg_color := c\<rparr>)))"

text \<open>The two conflicts, then the colours of a slide with an effect.\<close>

definition check_conflicts :: "slide \<Rightarrow> error + slide" where
  "check_conflicts s =
     (if has_effect s \<and> (style s (ascii ''fg'') \<noteq> None \<or> style s (ascii ''bg'') \<noteq> None)
      then Inl ValueError_effects_colors
      else if has_effect s \<and> has_code s then Inl ValueError_effects_code
      else if has_effect s then Inr (s\<lparr>fg_color := 7, bg_color := 0\<rparr>)
      else Inr s)"

text \<open>\<open>Slide.__init__\<close>\<close>

definition Slide_init :: "env \<Rightarrow> element list \<Rightarrow> error + slide" where
  "Slide_init E es =
     (case scan_elements E es (new_slide es) of
        Inl x \<Rightarrow> Inl x
      | Inr s1 \<Rightarrow>
          (case check_effect E s1 of
             Inl x \<Rightarrow> Inl x
           | Inr s2 \<Rightarrow>
               (case check_fg E s2 of
                  Inl x \<Rightarrow> Inl x
                | Inr s3 \<Rightarrow>
                    (case check_bg E s3 of
                       Inl x \<Rightarrow> Inl x
                     | Inr s4 \<Rightarrow> check_conflicts s4))))"

section \<open>Markdown.parse\<close>

subsection \<open>From the type tag to the class\<close>

text \<open>
  \<open>s.title()\<close> on ASCII: a letter after a letter is made lower case, any other letter
  upper case. Case mapping beyond ASCII is not modelled, so \<open>element_name\<close>, which is
  \<open>obj["type"].title().replace("_", "")\<close>, is \<open>Unmodelled\<close> on a tag that is not ASCII.
\<close>

definition is_upper :: "nat \<Rightarrow> bool" where
  "is_upper c = (65 \<le> c \<and> c \<le> 90)"

definition is_lower :: "nat \<Rightarrow> bool" where
  "is_lower c = (97 \<le> c \<and> c \<le> 122)"

fun title_from :: "bool \<Rightarrow> str \<Rightarrow> str" where
  "title_from cased [] = []"
| "title_from cased (c # cs) =
     (if is_lower c then (if cased then c else c - 32) # title_from True cs
      else if is_upper c then (if cased then c + 32 else c) # title_from True cs
      else c # title_from False cs)"

definition title :: "str \<Rightarrow> str" where
  "title s = title_from False s"

definition element_name :: "str \<Rightarrow> error + str" where
  "element_name tag =
     (if list_all (\<lambda>c. c < 128) tag then Inr (filter (\<lambda>c. c \<noteq> 95) (title tag))
      else Inl Unmodelled)"

text \<open>
  \<open>eval(element_name)\<close>. An element name has no underscore and, when it starts with a
  letter, starts with a capital. On such a name made of ASCII letters and digits, \<open>eval\<close>
  looks the name up in the local variables of \<open>parse\<close>, then in the module and then in
  \<open>builtins\<close>, and raises \<open>NameError\<close> when it is bound in none. Any other string is
  some other expression, and \<open>Unmodelled\<close>.

  The only local variable of \<open>parse\<close> that starts with a capital is \<open>Element\<close>: unbound
  until the first \<open>eval\<close> returns, then the class it returned. The module binds the seven
  dataclasses, \<open>Slide\<close>, \<open>Markdown\<close> and the imported \<open>Figlet\<close>, \<open>EFFECTS\<close> and \<open>COLORMAP\<close>;
  its other names start with a lower-case letter. \<open>builtin_names\<close> are the names of
  \<open>builtins\<close> that start with a capital, the constants \<open>True\<close>, \<open>False\<close> and \<open>None\<close> among
  them, in CPython 3.8 to 3.13 on any platform.
\<close>

datatype val = Class cls | Other

definition class_name :: "str \<Rightarrow> bool" where
  "class_name name =
     (case name of [] \<Rightarrow> False | c # cs \<Rightarrow> is_upper c \<and> list_all ascii_alnum cs)"

definition module_names :: "(str \<times> val) list" where
  "module_names =
     [(ascii ''Figlet'', Other), (ascii ''EFFECTS'', Other), (ascii ''COLORMAP'', Other),
      (ascii ''Heading'', Class Heading), (ascii ''Text'', Class Text),
      (ascii ''List'', Class List), (ascii ''BlockCode'', Class BlockCode),
      (ascii ''Codio'', Class Codio), (ascii ''Image'', Class Image),
      (ascii ''BlockHtml'', Class BlockHtml), (ascii ''Slide'', Other),
      (ascii ''Markdown'', Other)]"

definition builtin_names :: "str list" where
  "builtin_names =
     [ascii ''ArithmeticError'', ascii ''AssertionError'', ascii ''AttributeError'',
      ascii ''BaseException'', ascii ''BaseExceptionGroup'', ascii ''BlockingIOError'',
      ascii ''BrokenPipeError'', ascii ''BufferError'', ascii ''BytesWarning'',
      ascii ''ChildProcessError'', ascii ''ConnectionAbortedError'',
      ascii ''ConnectionError'', ascii ''ConnectionRefusedError'',
      ascii ''ConnectionResetError'', ascii ''DeprecationWarning'', ascii ''EOFError'',
      ascii ''Ellipsis'', ascii ''EncodingWarning'', ascii ''EnvironmentError'',
      ascii ''Exception'', ascii ''ExceptionGroup'', ascii ''False'',
      ascii ''FileExistsError'', ascii ''FileNotFoundError'', ascii ''FloatingPointError'',
      ascii ''FutureWarning'', ascii ''GeneratorExit'', ascii ''IOError'',
      ascii ''ImportError'', ascii ''ImportWarning'', ascii ''IndentationError'',
      ascii ''IndexError'', ascii ''InterruptedError'', ascii ''IsADirectoryError'',
      ascii ''KeyError'', ascii ''KeyboardInterrupt'', ascii ''LookupError'',
      ascii ''MemoryError'', ascii ''ModuleNotFoundError'', ascii ''NameError'',
      ascii ''None'', ascii ''NotADirectoryError'', ascii ''NotImplemented'',
      ascii ''NotImplementedError'', ascii ''OSError'', ascii ''OverflowError'',
      ascii ''PendingDeprecationWarning'', ascii ''PermissionError'',
      ascii ''ProcessLookupError'', ascii ''PythonFinalizationError'',
      ascii ''RecursionError'', ascii ''ReferenceError'', ascii ''ResourceWarning'',
      ascii ''RuntimeError'', ascii ''RuntimeWarning'', ascii ''StopAsyncIteration'',
      ascii ''StopIteration'', ascii ''SyntaxError'', ascii ''SyntaxWarning'',
      ascii ''SystemError'', ascii ''SystemExit'', ascii ''TabError'',
      ascii ''TimeoutError'', ascii ''True'', ascii ''TypeError'',
      ascii ''UnboundLocalError'', ascii ''UnicodeDecodeError'',
      ascii ''UnicodeEncodeError'', ascii ''UnicodeError'',
      ascii ''UnicodeTranslateError'', ascii ''UnicodeWarning'', ascii ''UserWarning'',
      ascii ''ValueError'', ascii ''Warning'', ascii ''WindowsError'',
      ascii ''ZeroDivisionError'']"

definition eval :: "cls option \<Rightarrow> str \<Rightarrow> error + val" where
  "eval Element name =
     (if \<not> class_name name then Inl Unmodelled
      else
        (case (if name = ascii ''Element'' then Element else None) of
           Some c \<Rightarrow> Inr (Class c)
         | None \<Rightarrow>
             (case map_of module_names name of
                Some v \<Rightarrow> Inr v
              | None \<Rightarrow> if name \<in> set builtin_names then Inr Other else Inl NameError)))"

text \<open>
  \<open>Element(obj=obj)\<close>. The dataclasses store \<open>obj\<close>; \<open>Image.__init__\<close> also checks that
  the file exists.
\<close>

definition construct :: "env \<Rightarrow> cls \<Rightarrow> obj \<Rightarrow> error + element" where
  "construct E c d =
     (if c = Image then
        (case getitem ''src'' (get_src d) of
           Inl x \<Rightarrow> Inl x
         | Inr src \<Rightarrow>
             if \<not> path_exists E src then Inl (FileNotFoundError src)
             else Inr \<lparr>ecls = c, eobj = d\<rparr>)
      else Inr \<lparr>ecls = c, eobj = d\<rparr>)"

subsection \<open>The loop\<close>

text \<open>The local variables of \<open>parse\<close> that the loop changes.\<close>

record parse_state =
  slides :: "slide list"
  sliden :: int
  buffer :: "element list"
  Element :: "cls option"

text \<open>
  The statements \<open>element_name = ...\<close>, \<open>Element = eval(element_name)\<close> and
  \<open>buffer.append(Element(obj=obj))\<close>, with the handler of \<open>NameError\<close>. What a call of a
  bound name other than the seven dataclasses does depends on the name and on the
  version of Python (most raise \<open>TypeError\<close>; \<open>AttributeError\<close> takes \<open>obj\<close> from 3.10 on),
  and is \<open>Unmodelled\<close>.
\<close>

definition adapt :: "env \<Rightarrow> node \<Rightarrow> parse_state \<Rightarrow> error + parse_state" where
  "adapt E obj st =
     (case element_name (ntype obj) of
        Inl x \<Rightarrow> Inl x
      | Inr name \<Rightarrow>
          (case eval (Element st) name of
             Inl x \<Rightarrow> if x = NameError then Inl (ValueError_element (sliden st + 1) name)
                      else Inl x
           | Inr Other \<Rightarrow> Inl Unmodelled
           | Inr (Class c) \<Rightarrow>
               (case construct E c (Ast obj) of
                  Inl x \<Rightarrow> Inl x
                | Inr e \<Rightarrow> Inr (st\<lparr>buffer := buffer st @ [e], Element := Some c\<rparr>))))"

text \<open>The body of \<open>for child in obj["children"]\<close>.\<close>

definition adapt_child :: "env \<Rightarrow> node \<Rightarrow> parse_state \<Rightarrow> error + parse_state" where
  "adapt_child E child st =
     (if ntype child = ascii ''image'' then
        (case getitem ''alt'' (nalt child) of
           Inl x \<Rightarrow> Inl x
         | Inr alt \<Rightarrow>
             if alt = ascii ''codio'' then
               (case getitem ''src'' (nsrc child) of
                  Inl x \<Rightarrow> Inl x
                | Inr src \<Rightarrow>
                    (case load_yaml E src of
                       None \<Rightarrow> Inl (FileNotFoundError src)
                     | Some codio \<Rightarrow>
                         Inr (st\<lparr>buffer := buffer st @ [\<lparr>ecls = Codio, eobj = Yaml codio\<rparr>]\<rparr>)))
             else adapt E child st)
      else adapt E child st)"

fun adapt_children :: "env \<Rightarrow> node list \<Rightarrow> parse_state \<Rightarrow> error + parse_state" where
  "adapt_children E [] st = Inr st"
| "adapt_children E (child # cs) st =
     (case adapt_child E child st of Inl x \<Rightarrow> Inl x | Inr st' \<Rightarrow> adapt_children E cs st')"

definition adapt_paragraph :: "env \<Rightarrow> node \<Rightarrow> parse_state \<Rightarrow> error + parse_state" where
  "adapt_paragraph E obj st =
     (case getitem ''children'' (nchildren obj) of
        Inl x \<Rightarrow> Inl x
      | Inr cs \<Rightarrow> adapt_children E cs st)"

text \<open>
  \<open>slides.append(Slide(elements=buffer)); sliden += 1\<close>, followed at a thematic break by
  \<open>buffer = []\<close>.
\<close>

definition append_slide :: "env \<Rightarrow> parse_state \<Rightarrow> error + parse_state" where
  "append_slide E st =
     (case Slide_init E (buffer st) of
        Inl x \<Rightarrow> Inl x
      | Inr s \<Rightarrow> Inr (st\<lparr>slides := slides st @ [s], sliden := sliden st + 1\<rparr>))"

definition flush :: "env \<Rightarrow> parse_state \<Rightarrow> error + parse_state" where
  "flush E st =
     (case append_slide E st of Inl x \<Rightarrow> Inl x | Inr st' \<Rightarrow> Inr (st'\<lparr>buffer := []\<rparr>))"

text \<open>
  One pass of \<open>for i, obj in enumerate(ast)\<close>; \<open>is_last\<close> is \<open>i == len(ast) - 1\<close>. The two
  \<open>continue\<close> statements leave the body before that test.
\<close>

definition loop_body :: "env \<Rightarrow> node \<Rightarrow> bool \<Rightarrow> parse_state \<Rightarrow> error + parse_state" where
  "loop_body E obj is_last st =
     (if ntype obj = ascii ''newline'' then Inr st
      else if ntype obj = ascii ''thematic_break'' \<and> buffer st \<noteq> [] then flush E st
      else
        (case (if ntype obj = ascii ''paragraph'' then adapt_paragraph E obj st
               else adapt E obj st) of
           Inl x \<Rightarrow> Inl x
         | Inr st' \<Rightarrow> if is_last then append_slide E st' else Inr st'))"

fun parse_loop :: "env \<Rightarrow> node list \<Rightarrow> parse_state \<Rightarrow> error + parse_state" where
  "parse_loop E [] st = Inr st"
| "parse_loop E (obj # rest) st =
     (case loop_body E obj (rest = []) st of
        Inl x \<Rightarrow> Inl x
      | Inr st' \<Rightarrow> parse_loop E rest st')"

text \<open>
  \<open>Markdown.parse\<close>, from the AST on: \<open>markdown(text, renderer="ast")\<close> is the parser's.
\<close>

definition initial :: parse_state where
  "initial = \<lparr>slides = [], sliden = 0, buffer = [], Element = None\<rparr>"

definition parse :: "env \<Rightarrow> node list \<Rightarrow> error + slide list" where
  "parse E ast =
     (case parse_loop E ast initial of Inl x \<Rightarrow> Inl x | Inr st \<Rightarrow> Inr (slides st))"

section \<open>The specification's formulas and sample inputs\<close>

text \<open>
  The candidate width of one line as the specification words it: the maximum of a
  quarter of the terminal's columns (rounded down) for a progress line, else 0; the
  length of the prompt; the length of the input plus its spaces; the length of the
  output plus its spaces.
\<close>

definition spec_candidate :: "nat \<Rightarrow> codio_line \<Rightarrow> int" where
  "spec_candidate cols l =
     max (if progress_set l then int (cols div 4) else 0)
       (max (len (get_str (prompt l)))
         (max (len (get_str (inp l)) + count_spaces (get_str (inp l)))
              (len (get_str (out l)) + count_spaces (get_str (out l)))))"

text \<open>
  The rows of a code block's box as the specification words them, for the longest line
  length \<open>L\<close>: a border of \<open>L + 2\<close> spaces, and a line after one space, filled with spaces
  to \<open>L + 1\<close>.
\<close>

definition border :: "nat \<Rightarrow> str" where
  "border L = replicate (L + 2) SPACE"

definition content_row :: "nat \<Rightarrow> str \<Rightarrow> str" where
  "content_row L l = SPACE # l @ replicate (L + 1 - length l) SPACE"

text \<open>
  The passes of the loop of \<open>parse\<close> over nodes that are followed by another node, so
  that none of them is the last: the state in which the loop reaches the next node.
\<close>

fun passes :: "env \<Rightarrow> node list \<Rightarrow> parse_state \<Rightarrow> error + parse_state" where
  "passes E [] st = Inr st"
| "passes E (obj # rest) st =
     (case loop_body E obj False st of Inl x \<Rightarrow> Inl x | Inr st' \<Rightarrow> passes E rest st')"

text \<open>
  A class name that the lookup of \<open>eval\<close> finds nowhere, whatever \<open>Element\<close> holds: not
  \<open>Element\<close> itself, no name of the module and no builtin.
\<close>

definition unbound :: "str \<Rightarrow> bool" where
  "unbound name =
     (class_name name
      \<and> name \<noteq> ascii ''Element''
      \<and> map_of module_names name = None
      \<and> name \<notin> set builtin_names)"

text \<open>
  Modelled from the spec: the type tags of the nodes that the markdown parser returns;
  the parser is kept with the repository but is not among the sources. Section 6 names
  the tags of \<open>supported_tags\<close>, in the parser's spelling, and the specification takes
  exactly these, the ignored thematic break and newline among them, as the supported
  set. \<open>unsupported_tags\<close> are the other tags of the parser's nodes, which the
  specification leaves unnamed: those of its block and inline rules and of its plugins.
\<close>

definition supported_tags :: "str list" where
  "supported_tags =
     [ascii ''heading'', ascii ''text'', ascii ''list'', ascii ''block_code'', ascii ''image'',
      ascii ''block_html'', ascii ''paragraph'', ascii ''thematic_break'', ascii ''newline'']"

definition unsupported_tags :: "str list" where
  "unsupported_tags =
     [ascii ''block_quote'', ascii ''block_text'', ascii ''list_item'',
      ascii ''block_error'', ascii ''link'', ascii ''emphasis'', ascii ''strong'',
      ascii ''codespan'', ascii ''linebreak'', ascii ''inline_html'',
      ascii ''strikethrough'', ascii ''footnote_ref'', ascii ''footnotes'',
      ascii ''footnote_item'', ascii ''table'', ascii ''table_head'', ascii ''table_body'',
      ascii ''table_row'', ascii ''table_cell'', ascii ''task_list_item'',
      ascii ''def_list'', ascii ''def_list_header'', ascii ''def_list_item'',
      ascii ''abbr'', ascii ''admonition'']"

text \<open>
  The lines that a walk appends to its list, in the order of the appends: for each
  child its own line, when it has a text, and then the lines of the walk of the child.
\<close>

function walk_lines :: "node \<Rightarrow> int \<Rightarrow> str list" where
  "walk_lines obj level =
     concat (map (\<lambda>child.
                    (case ntext child of None \<Rightarrow> []
                     | Some t \<Rightarrow> [repeat SPACE (2 * level) @ BULLET @ t])
                    @ walk_lines child (level + 1))
                 (case nchildren obj of None \<Rightarrow> [] | Some cs \<Rightarrow> cs))"
  by pat_completeness auto
termination
proof (relation "measure (\<lambda>(obj, level). size obj)")
  show "wf (measure (\<lambda>(obj, level). size obj))"
    by simp
next
  fix obj :: node and level :: int and child :: node
  assume "child \<in> set (case nchildren obj of None \<Rightarrow> [] | Some cs \<Rightarrow> cs)"
  then obtain cs where cs: "nchildren obj = Some cs" and mem: "child \<in> set cs"
    by (cases "nchildren obj") auto
  have "size child \<le> size_list size cs"
    using mem by (simp add: size_list_estimation')
  also have "\<dots> < size obj"
    using cs by (cases obj) simp
  finally show "((child, level + 1), obj, level) \<in> measure (\<lambda>(obj, level). size obj)"
    by simp
qed

declare walk_lines.simps [simp del]

text \<open>The lines that \<open>List.walk\<close> returns for the \<open>obj\<close> of an element.\<close>

definition lines_of :: "obj \<Rightarrow> str list" where
  "lines_of d = (case d of Ast n \<Rightarrow> walk_lines n 0 | Yaml s \<Rightarrow> [])"

text \<open>Sample inputs.\<close>

definition ex_prompt_line :: codio_line where
  "ex_prompt_line = \<lparr>prompt = Some (ascii ''Installing''), inp = None, out = Some [],
     color = None, bold = Some True, underline = None, progress = None,
     progressChar = None\<rparr>"

definition ex_text :: str where
  "ex_text = ascii ''ab'' @ [NEWLINE] @ ascii ''c''"

definition ex_code :: obj where
  "ex_code = Ast (Node (ascii ''block_code'') (Some ex_text) None None None None)"

definition ex_code_empty :: obj where
  "ex_code_empty = Ast (Node (ascii ''block_code'') (Some []) None None None None)"

definition ex_env :: env where
  "ex_env = \<lparr>terminal_columns = 80, terminal_lines = 24,
     renderText = (\<lambda>t. t @ [NEWLINE] @ t @ [NEWLINE]),
     path_exists = (\<lambda>p. False), load_yaml = (\<lambda>p. None),
     EFFECTS = [ascii ''fireworks'', ascii ''stars''],
     COLORMAP = [(ascii ''black'', 0), (ascii ''red'', 1), (ascii ''white'', 7)],
     unicode_alnum = (\<lambda>c. False)\<rparr>"

definition ex_html :: "string \<Rightarrow> element" where
  "ex_html t = \<lparr>ecls = BlockHtml,
     eobj = Ast (Node (ascii ''block_html'') (Some (ascii t)) None None None None)\<rparr>"

definition ex_conflict :: "element list" where
  "ex_conflict = [ex_html ''effect=stars fg=red'']"

definition ex_conflict_scan :: slide where
  "ex_conflict_scan = (new_slide ex_conflict)
     \<lparr>has_style := True,
      style := map_of [(ascii ''fg'', ascii ''red''), (ascii ''effect'', ascii ''stars'')]\<rparr>"

definition ex_stars :: "element list" where
  "ex_stars = [ex_html ''effect=stars'']"

definition ex_stars_slide :: slide where
  "ex_stars_slide = (new_slide ex_stars)
     \<lparr>has_style := True, has_effect := True,
      style := map_of [(ascii ''effect'', ascii ''stars'')],
      effect := Some (ascii ''stars''), fg_color := 7, bg_color := 0\<rparr>"

definition ex_text_node :: node where
  "ex_text_node = Node (ascii ''text'') (Some (ascii ''Hi'')) None None None None"

definition ex_text_element :: element where
  "ex_text_element = \<lparr>ecls = Text, eobj = Ast ex_text_node\<rparr>"

definition ex_plain :: "element list" where
  "ex_plain = [ex_text_element]"

definition ex_heading :: node where
  "ex_heading = Node (ascii ''heading'') None (Some [ex_text_node]) (Some 1) None None"

definition ex_heading_element :: element where
  "ex_heading_element = \<lparr>ecls = Heading, eobj = Ast ex_heading\<rparr>"

definition ex_break :: node where
  "ex_break = Node (ascii ''thematic_break'') None None None None None"

definition ex_newline :: node where
  "ex_newline = Node (ascii ''newline'') None None None None None"

definition ex_quote :: node where
  "ex_quote = Node (ascii ''block_quote'') None (Some []) None None None"

definition ex_strong :: node where
  "ex_strong = Node (ascii ''strong'') None (Some []) None None None"

definition ex_paragraph :: node where
  "ex_paragraph = Node (ascii ''paragraph'') None (Some [ex_text_node, ex_strong])
     None None None"

definition ex_codio_tag :: node where
  "ex_codio_tag = Node (ascii ''codio'') None None None None None"

definition ex_heading_slide :: slide where
  "ex_heading_slide = new_slide [ex_heading_element]"

definition ex_state :: parse_state where
  "ex_state = \<lparr>slides = [ex_heading_slide], sliden = 1, buffer = [], Element = Some Heading\<rparr>"

definition ex_text_state :: parse_state where
  "ex_text_state = \<lparr>slides = [], sliden = 0, buffer = [ex_text_element], Element = Some Text\<rparr>"

definition ex_codio_slide :: slide where
  "ex_codio_slide = (new_slide [\<lparr>ecls = Codio, eobj = Ast ex_codio_tag\<rparr>])\<lparr>has_codio := True\<rparr>"

definition ex_fence :: node where
  "ex_fence = Node (ascii ''block_code'') (Some ex_text) None None None None"

definition ex_fence_slide :: slide where
  "ex_fence_slide = (new_slide [\<lparr>ecls = BlockCode, eobj = Ast ex_fence\<rparr>])\<lparr>has_code := True\<rparr>"

definition ex_item :: "string \<Rightarrow> node list \<Rightarrow> node" where
  "ex_item t cs = Node (ascii ''block_text'') (Some (ascii t)) (Some cs) None None None"

definition ex_list :: node where
  "ex_list = Node (ascii ''list'') None
     (Some [ex_item ''a'' [ex_item ''c'' []], ex_item ''b'' []]) None None None"

definition ex_list_element :: element where
  "ex_list_element = \<lparr>ecls = List, eobj = Ast ex_list\<rparr>"

definition ex_progress_script :: codio_script where
  "ex_progress_script = \<lparr>speed = 1, lines = [ex_prompt_line\<lparr>progress := Some True\<rparr>]\<rparr>"

section \<open>Codio: width, footprint and frames\<close>

lemma round53_small: "n < 2 ^ 53 \<Longrightarrow> round53 n = n"
  by (simp add: round53_def)

lemma terminal_quarter_small: "cols < 2 ^ 53 \<Longrightarrow> terminal_quarter cols = int (cols div 4)"
  by (simp add: terminal_quarter_def int_quotient_def round53_small)

text \<open>From \<open>2 ^ 53\<close> columns on the quarter is that of the nearest double.\<close>

lemma terminal_quarter_rounds: "terminal_quarter (2 ^ 55 - 1) = 2 ^ 53"
proof -
  have b: "bitlen (2 ^ 55 - 1) = 55"
    by simp
  show ?thesis
    by (simp add: terminal_quarter_def int_quotient_def round53_def b Let_def)
qed

lemma width_step_candidate:
  "cols < 2 ^ 53 \<Longrightarrow>
   width_step (terminal_quarter cols) l w = max w (spec_candidate cols l)"
  by (simp add: width_step_def spec_candidate_def terminal_quarter_small Let_def)

lemma Max_insert_max:
  "finite S \<Longrightarrow> Max (insert (max a b) S) = Max (insert a (insert (b::int) S))"
  by (cases "S = {}") (simp_all add: max.assoc)

lemma width_loop_Max:
  assumes "cols < 2 ^ 53"
  shows "width_loop (terminal_quarter cols) ls w = Max (insert w (spec_candidate cols ` set ls))"
proof (induction ls arbitrary: w)
  case Nil
  show ?case by simp
next
  case (Cons l ls)
  have "width_loop (terminal_quarter cols) (l # ls) w
        = Max (insert (max w (spec_candidate cols l)) (spec_candidate cols ` set ls))"
    by (simp add: Cons.IH width_step_candidate [OF assms])
  also have "\<dots> = Max (insert w (insert (spec_candidate cols l) (spec_candidate cols ` set ls)))"
    by (rule Max_insert_max) simp
  finally show ?case by simp
qed

text \<open>
  C4. On a terminal of fewer than \<open>2 ^ 53\<close> columns, where the quarter that the source
  takes through a double is the quarter rounded down, the width of a session is 4 more
  than the greatest candidate width of its lines, each candidate as the specification
  words it; a script without lines has width 4, the loop starting from 0, which no
  candidate is below. A quarter of 80 columns is 20.
\<close>

theorem Codio_width_spec:
  assumes "cols < 2 ^ 53"
  shows "Codio_width cols obj = 4 + Max (insert 0 (spec_candidate cols ` set (lines obj)))
   \<and> terminal_quarter 80 = 20"
proof
  show "Codio_width cols obj = 4 + Max (insert 0 (spec_candidate cols ` set (lines obj)))"
    by (simp add: Codio_width_def width_loop_Max [OF assms])
  show "terminal_quarter 80 = 20"
    by (simp add: terminal_quarter_small)
qed

theorem Codio_width_spec_witness:
  "(80::nat) < 2 ^ 53
   \<and> spec_candidate 80 (ex_prompt_line\<lparr>progress := Some True\<rparr>) = 20
   \<and> Codio_width 80 ex_progress_script = 24"
proof -
  have h: "(80::nat) < 2 ^ 53"
    by simp
  have c: "spec_candidate 80 (ex_prompt_line\<lparr>progress := Some True\<rparr>) = 20"
    by (simp add: spec_candidate_def ex_prompt_line_def progress_set_def get_str_def len_def
          count_spaces_def ascii_def)
  show ?thesis
    using h c Codio_width_spec [OF h, of ex_progress_script]
    by (simp add: ex_progress_script_def)
qed

lemma size_loop_count:
  "size_loop ls n =
     n + int (length (filter (\<lambda>l. get_str (inp l) \<noteq> [] \<and> get_str (out l) \<noteq> []) ls))"
  by (induction ls arbitrary: n) (simp_all add: size_step_def Let_def)

text \<open>
  C5. The footprint of a session is the number of its lines plus 2, plus the number of
  lines whose input and output are both non-empty.
\<close>

theorem Codio_size_spec:
  "Codio_size obj = len (lines obj) + 2 +
     int (length (filter (\<lambda>l. get_str (inp l) \<noteq> [] \<and> get_str (out l) \<noteq> []) (lines obj)))"
  by (simp add: Codio_size_def size_loop_count)





section \<open>BlockCode: the box and its footprint\<close>

lemma fold_max_Max: "fold max ys (x::int) = Max (set (x # ys))"
  by (rule Max.set_eq_fold [symmetric])

lemma py_max_len:
  assumes "ls \<noteq> []"
  shows "py_max (map len ls) = Inr (int (Max (length ` set ls)))"
proof -
  obtain x ys where ls: "ls = x # ys"
    using assms by (cases ls) auto
  have "py_max (map len ls) = Inr (Max (set (map len ls)))"
    unfolding ls py_max_def using fold_max_Max [of "map len ys" "len x"] by simp
  also have "set (map len ls) = int ` (length ` set ls)"
    by (auto simp: len_def)
  also have "Max (int ` (length ` set ls)) = int (Max (length ` set ls))"
    using assms by (intro mono_Max_commute [symmetric]) (auto simp: mono_def)
  finally show ?thesis .
qed

lemma py_max_empty: "py_max (map len []) = Inl ValueError_max_empty"
  by (simp add: py_max_def)

lemma splitlines_Nil_iff: "splitlines t = [] \<longleftrightarrow> t = []"
proof (cases t)
  case Nil
  then show ?thesis by (simp add: splitlines_def)
next
  case (Cons c cs)
  have "split_from cur (c # cs) \<noteq> []" for cur
  proof (induction cs arbitrary: cur c)
    case Nil
    show ?case by simp
  next
    case (Cons d ds)
    show ?case using Cons.IH by simp
  qed
  then show ?thesis by (simp add: Cons splitlines_def)
qed

lemma pad_lines_rows:
  assumes "splitlines t \<noteq> []"
  shows "pad_lines t SPACE =
     Inr (border (Max (length ` set (splitlines t)))
          # map (content_row (Max (length ` set (splitlines t)))) (splitlines t)
          @ [border (Max (length ` set (splitlines t)))])"
  using assms
  by (simp add: pad_lines_def py_max_len Let_def repeat_def ljust_def border_def
        content_row_def nat_add_distrib)

lemma split_from_clean_prefix:
  "\<forall>c\<in>set r. \<not> is_linebreak c \<Longrightarrow> split_from cur (r @ rest) = split_from (cur @ r) rest"
  by (induction r arbitrary: cur) simp_all

lemma split_from_row:
  assumes "\<forall>c\<in>set x. \<not> is_linebreak c"
  shows "split_from [] (x @ NEWLINE # rest) = x # split_from [] rest"
proof -
  have "split_from [] (x @ NEWLINE # rest) = split_from ([] @ x) (NEWLINE # rest)"
    using assms by (rule split_from_clean_prefix)
  also have "\<dots> = x # split_from [] rest"
    by (simp add: is_linebreak_def NEWLINE_def skip_break_def split: list.splits)
  finally show ?thesis .
qed

lemma split_from_last_row:
  assumes "\<forall>c\<in>set x. \<not> is_linebreak c" and "x \<noteq> []"
  shows "split_from [] x = [x]"
proof -
  have "split_from [] (x @ []) = split_from ([] @ x) []"
    using assms(1) by (rule split_from_clean_prefix)
  then show ?thesis using assms(2) by simp
qed

lemma splitlines_join:
  "\<forall>r\<in>set rows. r \<noteq> [] \<and> (\<forall>c\<in>set r. \<not> is_linebreak c)
   \<Longrightarrow> split_from [] (join [NEWLINE] rows) = rows"
proof (induction rows)
  case Nil
  show ?case by simp
next
  case (Cons x rows)
  show ?case
  proof (cases rows)
    case Nil
    then show ?thesis using Cons.prems by (simp add: split_from_last_row)
  next
    case (Cons y ys)
    have "split_from [] (join [NEWLINE] (x # y # ys)) = x # split_from [] (join [NEWLINE] (y # ys))"
      using Cons.prems by (simp add: split_from_row)
    then show ?thesis using Cons.IH Cons.prems Cons by simp
  qed
qed

lemma split_from_clean:
  "\<forall>c\<in>set cur. \<not> is_linebreak c \<Longrightarrow> \<forall>l\<in>set (split_from cur s). \<forall>c\<in>set l. \<not> is_linebreak c"
proof (induction cur s rule: split_from.induct)
  case (1 cur)
  then show ?case by simp
next
  case (2 cur c cs)
  show ?case
  proof (cases "is_linebreak c")
    case True
    have "\<forall>l\<in>set (split_from [] (skip_break c cs)). \<forall>c\<in>set l. \<not> is_linebreak c"
      using "2.IH"(1) [OF True] by simp
    then show ?thesis using True "2.prems" by simp
  next
    case False
    have "\<forall>l\<in>set (split_from (cur @ [c]) cs). \<forall>c\<in>set l. \<not> is_linebreak c"
      using "2.IH"(2) [OF False] False "2.prems" by simp
    then show ?thesis using False by simp
  qed
qed

lemma splitlines_clean: "l \<in> set (splitlines t) \<Longrightarrow> c \<in> set l \<Longrightarrow> \<not> is_linebreak c"
  using split_from_clean [of "[]" t] by (auto simp: splitlines_def)

lemma length_le_Max: "l \<in> set ls \<Longrightarrow> length l \<le> Max (length ` set ls)"
  by simp

text \<open>
  C7. A code block whose text has at least one line: \<open>size\<close> is the number of lines;
  \<open>render\<close> is the rows joined by newlines, the rows being a border, one content row
  for each line and a border, so two more than \<open>size\<close> counts; split into lines again,
  the rendered text gives these rows back; and every row is \<open>L + 2\<close> wide, \<open>L\<close> the
  length of the longest line.
\<close>

theorem BlockCode_box:
  assumes "get_text d = Some t" and "splitlines t \<noteq> []"
    and "L = Max (length ` set (splitlines t))"
    and "rows = border L # map (content_row L) (splitlines t) @ [border L]"
  shows "BlockCode_size d = Inr (int (length (splitlines t)))
       \<and> BlockCode_render d = Inr (join [NEWLINE] rows)
       \<and> splitlines (join [NEWLINE] rows) = rows
       \<and> length rows = length (splitlines t) + 2
       \<and> (\<forall>r\<in>set rows. length r = L + 2)"
proof -
  have size_eq: "BlockCode_size d = Inr (int (length (splitlines t)))"
    using assms(1) by (simp add: BlockCode_size_def getitem_def len_def)
  have render_eq: "BlockCode_render d = Inr (join [NEWLINE] rows)"
    using assms by (simp add: BlockCode_render_def getitem_def pad_def pad_lines_rows)
  have widths: "\<forall>r\<in>set rows. length r = L + 2"
    using assms(3,4) by (auto simp: border_def content_row_def dest: length_le_Max)
  have sp: "\<not> is_linebreak SPACE"
    by (simp add: is_linebreak_def SPACE_def)
  have clean: "\<forall>r\<in>set rows. \<forall>c\<in>set r. \<not> is_linebreak c"
    using assms(4) sp by (auto simp: border_def content_row_def dest: splitlines_clean)
  have "\<forall>r\<in>set rows. r \<noteq> []"
    using widths by auto
  then have again: "splitlines (join [NEWLINE] rows) = rows"
    using clean unfolding splitlines_def by (intro splitlines_join) auto
  show ?thesis
    using size_eq render_eq again widths assms(4) by simp
qed

theorem BlockCode_box_witness:
  "get_text ex_code = Some ex_text
   \<and> splitlines ex_text = [ascii ''ab'', ascii ''c'']
   \<and> BlockCode_size ex_code = Inr 2
   \<and> BlockCode_render ex_code =
       Inr (join [NEWLINE] [border 2, content_row 2 (ascii ''ab''), content_row 2 (ascii ''c''),
                            border 2])
   \<and> content_row 2 (ascii ''c'') = ascii '' c  ''"
proof -
  have h1: "get_text ex_code = Some ex_text"
    by (simp add: ex_code_def get_text_def)
  have sl: "splitlines ex_text = [ascii ''ab'', ascii ''c'']"
    by (simp add: ex_text_def splitlines_def ascii_def NEWLINE_def is_linebreak_def
          skip_break_def)
  have h2: "splitlines ex_text \<noteq> []"
    by (simp add: sl)
  have h3: "(2::nat) = Max (length ` set (splitlines ex_text))"
    by (simp add: sl ascii_def)
  have row: "content_row 2 (ascii ''c'') = ascii '' c  ''"
    by (simp add: content_row_def ascii_def SPACE_def numeral_2_eq_2)
  show ?thesis
    using h1 sl row BlockCode_box [OF h1 h2 h3 refl] by simp
qed

text \<open>
  C10. On a code block whose text is empty, \<open>render\<close> fails, \<open>max\<close> being given no line,
  and \<open>size\<close> is 0; \<open>render\<close> returns exactly when the text has at least one line, and
  only the empty text has none.
\<close>

theorem BlockCode_no_lines:
  "(get_text d = Some [] \<longrightarrow>
      BlockCode_render d = Inl ValueError_max_empty \<and> BlockCode_size d = Inr 0)
   \<and> (get_text d = Some t \<longrightarrow>
        ((\<exists>r. BlockCode_render d = Inr r) \<longleftrightarrow> splitlines t \<noteq> []))
   \<and> (splitlines t = [] \<longleftrightarrow> t = [])"
proof -
  have a: "get_text d = Some [] \<longrightarrow>
      BlockCode_render d = Inl ValueError_max_empty \<and> BlockCode_size d = Inr 0"
    by (simp add: BlockCode_render_def BlockCode_size_def getitem_def pad_def pad_lines_def
          splitlines_def py_max_def len_def)
  have b: "get_text d = Some t \<longrightarrow>
        ((\<exists>r. BlockCode_render d = Inr r) \<longleftrightarrow> splitlines t \<noteq> [])"
  proof (cases "splitlines t = []")
    case True
    then show ?thesis
      by (simp add: BlockCode_render_def getitem_def pad_def pad_lines_def py_max_def)
  next
    case False
    then show ?thesis
      by (simp add: BlockCode_render_def getitem_def pad_def pad_lines_rows)
  qed
  show ?thesis using a b splitlines_Nil_iff by blast
qed

theorem BlockCode_no_lines_witness:
  "get_text ex_code_empty = Some []
   \<and> BlockCode_render ex_code_empty = Inl ValueError_max_empty
   \<and> BlockCode_size ex_code_empty = Inr 0
   \<and> get_text ex_code = Some ex_text
   \<and> ex_text \<noteq> []
   \<and> splitlines ex_text \<noteq> []
   \<and> (\<exists>r. BlockCode_render ex_code = Inr r)"
proof -
  have h1: "get_text ex_code_empty = Some []"
    by (simp add: ex_code_empty_def get_text_def)
  have h2: "get_text ex_code = Some ex_text"
    by (simp add: ex_code_def get_text_def)
  have h3: "ex_text \<noteq> []"
    by (simp add: ex_text_def ascii_def)
  show ?thesis
    using h1 h2 h3 BlockCode_no_lines [of ex_code_empty "[]"]
      BlockCode_no_lines [of ex_code ex_text]
    by blast
qed

section \<open>The footprint of an element\<close>

text \<open>
  A walk changes the store in one place only: it appends its lines to the list it was
  given. So the list that \<open>size\<close> or \<open>render\<close> of a \<open>List\<close> makes holds the lines of the
  walk, whatever the store held before.
\<close>

lemma walk_fold:
  assumes step: "\<And>child h'. child \<in> set cs \<Longrightarrow> a < length h' \<Longrightarrow> f child h' = h'[a := h' ! a @ g child]"
  shows "set ds \<subseteq> set cs \<Longrightarrow> a < length h \<Longrightarrow>
         fold f ds h = h[a := h ! a @ concat (map g ds)]"
proof (induction ds arbitrary: h)
  case Nil
  then show ?case by simp
next
  case (Cons d ds)
  have d: "f d h = h[a := h ! a @ g d]"
    using Cons.prems by (intro step) auto
  have "fold f (d # ds) h = fold f ds (h[a := h ! a @ g d])"
    by (simp add: d)
  also have "\<dots> = (h[a := h ! a @ g d])[a := (h[a := h ! a @ g d]) ! a @ concat (map g ds)]"
    using Cons.prems by (intro Cons.IH) auto
  also have "\<dots> = h[a := h ! a @ concat (map g (d # ds))]"
    using Cons.prems by simp
  finally show ?case .
qed

lemma walk_update:
  "a < length h \<Longrightarrow> walk obj a level h = h[a := h ! a @ walk_lines obj level]"
proof (induction obj a level h rule: walk.induct)
  case (1 obj a level h)
  define cs where "cs = (case nchildren obj of None \<Rightarrow> [] | Some cs \<Rightarrow> cs)"
  define f where "f = (\<lambda>child h'. walk child a (level + 1)
       (case ntext child of None \<Rightarrow> h'
        | Some t \<Rightarrow> h'[a := h' ! a @ [repeat SPACE (2 * level) @ BULLET @ t]]))"
  define g where "g = (\<lambda>child. (case ntext child of None \<Rightarrow> []
        | Some t \<Rightarrow> [repeat SPACE (2 * level) @ BULLET @ t]) @ walk_lines child (level + 1))"
  have step: "f child h' = h'[a := h' ! a @ g child]"
    if "child \<in> set cs" and "a < length h'" for child h'
  proof (cases "ntext child")
    case None
    then show ?thesis
      using "1.IH" [of child h'] that by (simp add: f_def g_def cs_def)
  next
    case (Some t)
    then show ?thesis
      using "1.IH" [of child h'] that by (simp add: f_def g_def cs_def)
  qed
  have "walk obj a level h = fold f cs h"
    by (subst walk.simps) (simp add: f_def cs_def)
  also have "\<dots> = h[a := h ! a @ concat (map g cs)]"
    using step "1.prems" by (intro walk_fold [where cs = cs]) auto
  also have "concat (map g cs) = walk_lines obj level"
    by (subst walk_lines.simps) (simp add: g_def cs_def)
  finally show ?case .
qed

lemma walk_obj_eq: "walk_obj d h = (length h, h @ [lines_of d])"
proof (cases d)
  case (Ast n)
  have "walk n (length h) 0 (h @ [[]]) = (h @ [[]])[length h := (h @ [[]]) ! length h @ walk_lines n 0]"
    by (rule walk_update) simp
  then show ?thesis
    by (simp add: walk_obj_def new_list_def lines_of_def Ast)
next
  case (Yaml s)
  then show ?thesis
    by (simp add: walk_obj_def new_list_def lines_of_def)
qed

lemma List_size_eq: "List_size d h = (Inr (len (lines_of d)), h @ [lines_of d])"
  by (simp add: List_size_def walk_obj_eq)

lemma List_render_eq: "List_render d h = (Inr (join [NEWLINE] (lines_of d)), h @ [lines_of d])"
  by (simp add: List_render_def walk_obj_eq)

lemma size_of_any_store: "fst (size_of E e h') = fst (size_of E e h)"
  by (cases "ecls e") (simp_all add: size_of_def List_size_eq)

lemma size_loop_ge: "n \<le> size_loop ls n"
  by (simp add: size_loop_count)

lemma Codio_size_nonneg: "0 \<le> Codio_size s"
  using size_loop_ge [of "len (lines s)" "lines s"] by (simp add: Codio_size_def len_def)

lemma size_of_Inr_nonneg:
  assumes "fst (size_of E e h) = Inr n"
  shows "0 \<le> n"
proof (cases "ecls e")
  case Heading
  then show ?thesis
    using assms
    by (auto simp: size_of_def Heading_size_def len_def split: sum.splits if_splits)
next
  case Text
  then show ?thesis using assms by (auto simp: size_of_def Text_size_def)
next
  case List
  then show ?thesis using assms by (auto simp: size_of_def List_size_eq len_def)
next
  case BlockCode
  then show ?thesis
    using assms by (auto simp: size_of_def BlockCode_size_def len_def split: sum.splits)
next
  case Codio
  then show ?thesis
    using assms Codio_size_nonneg
    by (auto simp: size_of_def Codio_size_obj_def split: sum.splits)
next
  case Image
  then show ?thesis
    using assms by (auto simp: size_of_def Image_size_def int_quotient_def split: if_splits)
next
  case BlockHtml
  then show ?thesis using assms by (simp add: size_of_def BlockHtml_size_def)
qed

lemma size_of_returns:
  assumes "ecls e = Text \<or> ecls e = List
     \<or> (ecls e = Image \<and> \<not> quotient_overflows (terminal_lines E) 2)
     \<or> (ecls e = BlockCode \<and> get_text (eobj e) \<noteq> None)
     \<or> (ecls e = Codio \<and> (\<exists>s. eobj e = Yaml s))
     \<or> (ecls e = Heading \<and> (\<exists>lv. get_level (eobj e) = Some lv
          \<and> (lv = 1 \<longrightarrow> (\<exists>t. first_child_text (eobj e) = Inr t))))"
  shows "\<exists>n. fst (size_of E e h) = Inr n"
  using assms
  by (auto simp: size_of_def Text_size_def List_size_eq Image_size_def BlockCode_size_def
        Codio_size_obj_def as_script_def Heading_size_def getitem_def)

text \<open>
  C2. \<open>size\<close> of a \<open>BlockHtml\<close> raises \<open>NotImplementedError\<close>. \<open>size\<close> of a \<open>Text\<close> or a
  \<open>List\<close> returns, as does that of an \<open>Image\<close> when halving the terminal's lines does
  not overflow, of a \<open>BlockCode\<close> with a text, of a \<open>Codio\<close> made from a loaded script,
  and of a \<open>Heading\<close> with a level and, at level 1, a first child with a text; and
  whatever \<open>size\<close> returns is not negative. The result of \<open>size\<close> is the same in the
  store that \<open>render\<close> leaves as before \<open>render\<close> was called, and the same in every store.
\<close>

theorem size_of_cases:
  "(ecls e = BlockHtml \<longrightarrow> fst (size_of E e h) = Inl NotImplementedError)
   \<and> (ecls e = Text \<or> ecls e = List \<longrightarrow> (\<exists>n. fst (size_of E e h) = Inr n \<and> 0 \<le> n))
   \<and> (ecls e = Image \<and> \<not> quotient_overflows (terminal_lines E) 2 \<longrightarrow>
        (\<exists>n. fst (size_of E e h) = Inr n \<and> 0 \<le> n))
   \<and> (ecls e = BlockCode \<and> get_text (eobj e) \<noteq> None \<longrightarrow>
        (\<exists>n. fst (size_of E e h) = Inr n \<and> 0 \<le> n))
   \<and> (ecls e = Codio \<and> (\<exists>s. eobj e = Yaml s) \<longrightarrow>
        (\<exists>n. fst (size_of E e h) = Inr n \<and> 0 \<le> n))
   \<and> (ecls e = Heading \<and> (\<exists>lv. get_level (eobj e) = Some lv
          \<and> (lv = 1 \<longrightarrow> (\<exists>t. first_child_text (eobj e) = Inr t))) \<longrightarrow>
        (\<exists>n. fst (size_of E e h) = Inr n \<and> 0 \<le> n))
   \<and> (\<forall>n. fst (size_of E e h) = Inr n \<longrightarrow> 0 \<le> n)
   \<and> fst (size_of E e (snd (render_of E e h))) = fst (size_of E e h)
   \<and> fst (size_of E e h') = fst (size_of E e h)"
proof -
  have html: "ecls e = BlockHtml \<longrightarrow> fst (size_of E e h) = Inl NotImplementedError"
    by (simp add: size_of_def BlockHtml_size_def)
  have nonneg: "\<forall>n. fst (size_of E e h) = Inr n \<longrightarrow> 0 \<le> n"
    using size_of_Inr_nonneg by blast
  have after: "fst (size_of E e (snd (render_of E e h))) = fst (size_of E e h)"
    by (rule size_of_any_store)
  have any: "fst (size_of E e h') = fst (size_of E e h)"
    by (rule size_of_any_store)
  show ?thesis
    using html nonneg after any size_of_returns [of e E h] by blast
qed

text \<open>C2, as the claim words it, fails on a \<open>BlockHtml\<close>.\<close>

theorem BlockHtml_size_counterexample:
  "fst (size_of ex_env (ex_html ''effect=stars'') []) = Inl NotImplementedError"
  by (simp add: size_of_def ex_html_def BlockHtml_size_def)

lemma walk_lines_Node:
  "walk_lines (Node ty tx None lv sr al) level = []"
  "walk_lines (Node ty tx (Some cs) lv sr al) level =
     concat (map (\<lambda>child.
                    (case ntext child of None \<Rightarrow> []
                     | Some t \<Rightarrow> [repeat SPACE (2 * level) @ BULLET @ t])
                    @ walk_lines child (level + 1)) cs)"
  by (subst walk_lines.simps, simp)+

lemma ex_list_lines:
  "lines_of (Ast ex_list) =
     [BULLET @ ascii ''a'', [SPACE, SPACE] @ BULLET @ ascii ''c'', BULLET @ ascii ''b'']"
  by (simp add: lines_of_def ex_list_def ex_item_def walk_lines_Node repeat_def
        numeral_2_eq_2)

lemma ex_list_render:
  "render_of ex_env ex_list_element [] =
     (Inr (Blob (join [NEWLINE] (lines_of (Ast ex_list)))), [lines_of (Ast ex_list)])"
  by (simp add: render_of_def ex_list_element_def List_render_eq blob_def)

theorem size_of_cases_witness:
  "ecls (ex_html ''effect=stars'') = BlockHtml
   \<and> fst (size_of ex_env (ex_html ''effect=stars'') []) = Inl NotImplementedError
   \<and> ecls ex_text_element = Text
   \<and> fst (size_of ex_env ex_text_element []) = Inr 1
   \<and> ecls ex_heading_element = Heading
   \<and> get_level (eobj ex_heading_element) = Some 1
   \<and> first_child_text (eobj ex_heading_element) = Inr (ascii ''Hi'')
   \<and> fst (size_of ex_env ex_heading_element []) = Inr 2
   \<and> ecls ex_list_element = List
   \<and> snd (render_of ex_env ex_list_element []) = [lines_of (Ast ex_list)]
   \<and> fst (size_of ex_env ex_list_element []) = Inr 3
   \<and> fst (size_of ex_env ex_list_element (snd (render_of ex_env ex_list_element []))) = Inr 3"
proof -
  have a: "ecls (ex_html ''effect=stars'') = BlockHtml"
    by (simp add: ex_html_def)
  have b: "ecls ex_text_element = Text" and b': "fst (size_of ex_env ex_text_element []) = Inr 1"
    by (simp_all add: ex_text_element_def size_of_def Text_size_def)
  have c: "ecls ex_heading_element = Heading"
    by (simp add: ex_heading_element_def)
  have lv: "get_level (eobj ex_heading_element) = Some 1"
    by (simp add: ex_heading_element_def ex_heading_def get_level_def)
  have ft: "first_child_text (eobj ex_heading_element) = Inr (ascii ''Hi'')"
    by (simp add: ex_heading_element_def ex_heading_def first_child_text_def get_children_def
          getitem_def ex_text_node_def)
  have sl: "splitlines (renderText ex_env (ascii ''Hi'')) = [ascii ''Hi'', ascii ''Hi'']"
    by (simp add: ex_env_def splitlines_def ascii_def NEWLINE_def is_linebreak_def
          skip_break_def)
  have sz: "fst (size_of ex_env ex_heading_element []) = Inr 2"
    using c lv ft sl by (simp add: size_of_def Heading_size_def getitem_def len_def)
  have l: "ecls ex_list_element = List"
    by (simp add: ex_list_element_def)
  have r: "snd (render_of ex_env ex_list_element []) = [lines_of (Ast ex_list)]"
    by (simp add: ex_list_render)
  have ls: "fst (size_of ex_env ex_list_element []) = Inr 3"
    by (simp add: size_of_def ex_list_element_def List_size_eq ex_list_lines len_def)
  show ?thesis
    using a b b' c lv ft sz l r ls
      size_of_cases [of "ex_html ''effect=stars''" ex_env "[]" "[]"]
      size_of_cases [of ex_text_element ex_env "[]" "[]"]
      size_of_cases [of ex_heading_element ex_env "[]" "[]"]
      size_of_cases [of ex_list_element ex_env "[]" "[]"]
    by simp
qed

section \<open>Slide: conflicts and colours\<close>

lemma etype_code: "etype e = ''code'' \<longleftrightarrow> ecls e = BlockCode"
  by (cases "ecls e") (simp_all add: etype_def)

lemma etype_html: "etype e = ''html'' \<longleftrightarrow> ecls e = BlockHtml"
  by (cases "ecls e") (simp_all add: etype_def)

lemma scan_element_keeps:
  assumes "scan_element E e s = Inr s'"
  shows "has_effect s' = has_effect s" and "fg_color s' = fg_color s"
    and "bg_color s' = bg_color s" and "has_code s' = (has_code s \<or> ecls e = BlockCode)"
    and "ecls e \<noteq> BlockHtml \<Longrightarrow> style s' = style s \<and> has_style s' = has_style s"
  using assms
  by (auto simp: scan_element_def Let_def etype_code etype_html split: sum.splits if_splits)

lemma scan_elements_keeps:
  assumes "scan_elements E es s = Inr s'"
  shows "has_effect s' = has_effect s \<and> fg_color s' = fg_color s \<and> bg_color s' = bg_color s
       \<and> has_code s' = (has_code s \<or> (\<exists>e\<in>set es. ecls e = BlockCode))
       \<and> ((\<forall>e\<in>set es. ecls e \<noteq> BlockHtml) \<longrightarrow> style s' = style s \<and> has_style s' = has_style s)"
  using assms
proof (induction es arbitrary: s)
  case Nil
  then show ?case by simp
next
  case (Cons e es)
  from Cons.prems obtain s1 where s1: "scan_element E e s = Inr s1"
    and rest: "scan_elements E es s1 = Inr s'"
    by (auto split: sum.splits)
  note k = scan_element_keeps [OF s1]
  from Cons.IH [OF rest] k show ?case
    by auto
qed

lemma check_effect_Inr:
  assumes "check_effect E s = Inr s'" and "\<not> has_effect s"
  shows "has_effect s' = (style s (ascii ''effect'') \<noteq> None)" and "style s' = style s"
    and "fg_color s' = fg_color s" and "bg_color s' = bg_color s"
    and "has_code s' = has_code s" and "has_style s' = has_style s"
  using assms by (auto simp: check_effect_def split: option.splits if_splits)

lemma check_fg_Inr:
  assumes "check_fg E s = Inr s'"
  shows "has_effect s' = has_effect s" and "style s' = style s"
    and "style s (ascii ''fg'') = None \<Longrightarrow> fg_color s' = fg_color s"
    and "bg_color s' = bg_color s"
    and "has_code s' = has_code s" and "has_style s' = has_style s"
  using assms by (auto simp: check_fg_def split: option.splits)

lemma check_bg_Inr:
  assumes "check_bg E s = Inr s'"
  shows "has_effect s' = has_effect s" and "style s' = style s"
    and "style s (ascii ''bg'') = None \<Longrightarrow> bg_color s' = bg_color s"
    and "fg_color s' = fg_color s"
    and "has_code s' = has_code s" and "has_style s' = has_style s"
  using assms by (auto simp: check_bg_def split: option.splits)

lemma check_conflicts_Inr:
  assumes "check_conflicts s = Inr s'"
  shows "has_effect s' = has_effect s" and "style s' = style s" and "has_style s' = has_style s"
    and "has_effect s \<Longrightarrow> fg_color s' = 7 \<and> bg_color s' = 0"
    and "\<not> has_effect s \<Longrightarrow> fg_color s' = fg_color s \<and> bg_color s' = bg_color s"
  using assms by (auto simp: check_conflicts_def split: if_splits)

lemma Slide_init_Inr:
  assumes "Slide_init E es = Inr sl"
  obtains s1 s2 s3 s4 where "scan_elements E es (new_slide es) = Inr s1"
    and "check_effect E s1 = Inr s2" and "check_fg E s2 = Inr s3"
    and "check_bg E s3 = Inr s4" and "check_conflicts s4 = Inr sl"
  using assms unfolding Slide_init_def by (auto split: sum.splits)

text \<open>
  C9. A slide that was constructed has an effect exactly when its style names one. With
  an effect its foreground is 7 and its background 0, whatever the defaults were.
  Without an effect, the foreground is 0 when the style sets no \<open>fg\<close> and the
  background is 7 when it sets no \<open>bg\<close>; a slide with no style block at all has the
  colours 0 and 7.
\<close>

theorem Slide_colours:
  assumes "Slide_init E es = Inr sl"
  shows "(has_effect sl \<longleftrightarrow> style sl (ascii ''effect'') \<noteq> None)
     \<and> (has_effect sl \<longrightarrow> fg_color sl = 7 \<and> bg_color sl = 0)
     \<and> (\<not> has_effect sl \<and> style sl (ascii ''fg'') = None \<longrightarrow> fg_color sl = 0)
     \<and> (\<not> has_effect sl \<and> style sl (ascii ''bg'') = None \<longrightarrow> bg_color sl = 7)
     \<and> ((\<forall>e\<in>set es. ecls e \<noteq> BlockHtml) \<longrightarrow>
          \<not> has_style sl \<and> fg_color sl = 0 \<and> bg_color sl = 7)"
proof -
  from assms obtain s1 s2 s3 s4 where scan: "scan_elements E es (new_slide es) = Inr s1"
    and ce: "check_effect E s1 = Inr s2" and cf: "check_fg E s2 = Inr s3"
    and cb: "check_bg E s3 = Inr s4" and cc: "check_conflicts s4 = Inr sl"
    by (rule Slide_init_Inr)
  note k1 = scan_elements_keeps [OF scan]
  have init: "\<not> has_effect (new_slide es)" "fg_color (new_slide es) = 0"
    "bg_color (new_slide es) = 7" "style (new_slide es) = Map.empty"
    "\<not> has_style (new_slide es)"
    by (simp_all add: new_slide_def)
  have ne1: "\<not> has_effect s1" using k1 init by simp
  note k2 = check_effect_Inr [OF ce ne1]
  note k3 = check_fg_Inr [OF cf]
  note k4 = check_bg_Inr [OF cb]
  note k5 = check_conflicts_Inr [OF cc]
  have st: "style sl = style s1"
    using k2(2) k3(2) k4(2) k5(2) by simp
  have eff: "has_effect sl = (style s1 (ascii ''effect'') \<noteq> None)"
    using k2(1) k3(1) k4(1) k5(1) by simp
  have a: "has_effect sl \<longleftrightarrow> style sl (ascii ''effect'') \<noteq> None"
    using st eff by simp
  have b: "has_effect sl \<longrightarrow> fg_color sl = 7 \<and> bg_color sl = 0"
    using k5(1,4) by simp
  have c: "\<not> has_effect sl \<and> style sl (ascii ''fg'') = None \<longrightarrow> fg_color sl = 0"
    using k1 init k2 k3 k4 k5 st by simp
  have d: "\<not> has_effect sl \<and> style sl (ascii ''bg'') = None \<longrightarrow> bg_color sl = 7"
    using k1 init k2 k3 k4 k5 st by simp
  have e: "(\<forall>e\<in>set es. ecls e \<noteq> BlockHtml) \<longrightarrow>
          \<not> has_style sl \<and> fg_color sl = 0 \<and> bg_color sl = 7"
  proof
    assume no: "\<forall>e\<in>set es. ecls e \<noteq> BlockHtml"
    then have s1: "style s1 = Map.empty" "\<not> has_style s1"
      using k1 init by simp_all
    then have "\<not> has_effect sl" "style sl (ascii ''fg'') = None" "style sl (ascii ''bg'') = None"
      using eff st by simp_all
    moreover have "\<not> has_style sl"
      using s1 k2 k3 k4 k5 by simp
    ultimately show "\<not> has_style sl \<and> fg_color sl = 0 \<and> bg_color sl = 7"
      using c d by simp
  qed
  show ?thesis using a b c d e by blast
qed

lemma check_effect_valid:
  assumes "\<forall>name. style s (ascii ''effect'') = Some name \<longrightarrow> name \<in> set (EFFECTS E)"
  shows "\<exists>s'. check_effect E s = Inr s'"
  using assms by (auto simp: check_effect_def split: option.splits)

lemma check_fg_valid:
  assumes "\<forall>name. style s (ascii ''fg'') = Some name \<longrightarrow> map_of (COLORMAP E) name \<noteq> None"
  shows "\<exists>s'. check_fg E s = Inr s'"
  using assms by (auto simp: check_fg_def split: option.splits)

lemma check_bg_valid:
  assumes "\<forall>name. style s (ascii ''bg'') = Some name \<longrightarrow> map_of (COLORMAP E) name \<noteq> None"
  shows "\<exists>s'. check_bg E s = Inr s'"
  using assms by (auto simp: check_bg_def split: option.splits)

lemma check_conflicts_cases:
  "check_conflicts s = Inl ValueError_effects_colors \<longleftrightarrow>
     has_effect s \<and> (style s (ascii ''fg'') \<noteq> None \<or> style s (ascii ''bg'') \<noteq> None)"
  "check_conflicts s = Inl ValueError_effects_code \<longleftrightarrow>
     has_effect s \<and> \<not> (style s (ascii ''fg'') \<noteq> None \<or> style s (ascii ''bg'') \<noteq> None)
     \<and> has_code s"
  "(\<exists>sl. check_conflicts s = Inr sl) \<longleftrightarrow>
     \<not> (has_effect s \<and> (style s (ascii ''fg'') \<noteq> None \<or> style s (ascii ''bg'') \<noteq> None
          \<or> has_code s))"
  by (auto simp: check_conflicts_def)

text \<open>
  C8. Let the style of the slide's elements be read without error, and let the effect
  and the colours it names be in \<open>EFFECTS\<close> and \<open>COLORMAP\<close>. Then construction fails
  with the conflict of effects and colours exactly when the style names an effect and
  a foreground or background; it fails with the conflict of effects and code exactly
  when the style names an effect and no colour and the slide has a code block; and it
  returns a slide in every other case.
\<close>

theorem Slide_incompatible_style:
  assumes scan: "scan_elements E es (new_slide es) = Inr s"
    and eff: "\<forall>name. style s (ascii ''effect'') = Some name \<longrightarrow> name \<in> set (EFFECTS E)"
    and fg: "\<forall>name. style s (ascii ''fg'') = Some name \<longrightarrow> map_of (COLORMAP E) name \<noteq> None"
    and bg: "\<forall>name. style s (ascii ''bg'') = Some name \<longrightarrow> map_of (COLORMAP E) name \<noteq> None"
  shows "(Slide_init E es = Inl ValueError_effects_colors \<longleftrightarrow>
            style s (ascii ''effect'') \<noteq> None
            \<and> (style s (ascii ''fg'') \<noteq> None \<or> style s (ascii ''bg'') \<noteq> None))
       \<and> (Slide_init E es = Inl ValueError_effects_code \<longleftrightarrow>
            style s (ascii ''effect'') \<noteq> None
            \<and> \<not> (style s (ascii ''fg'') \<noteq> None \<or> style s (ascii ''bg'') \<noteq> None)
            \<and> (\<exists>e\<in>set es. ecls e = BlockCode))
       \<and> ((\<exists>sl. Slide_init E es = Inr sl) \<longleftrightarrow>
            \<not> (style s (ascii ''effect'') \<noteq> None
               \<and> (style s (ascii ''fg'') \<noteq> None \<or> style s (ascii ''bg'') \<noteq> None
                  \<or> (\<exists>e\<in>set es. ecls e = BlockCode))))"
proof -
  note k1 = scan_elements_keeps [OF scan]
  have ne1: "\<not> has_effect s" and nc: "has_code s = (\<exists>e\<in>set es. ecls e = BlockCode)"
    using k1 by (simp_all add: new_slide_def)
  from check_effect_valid [OF eff] obtain s2 where ce: "check_effect E s = Inr s2" ..
  note k2 = check_effect_Inr [OF ce ne1]
  have "\<forall>name. style s2 (ascii ''fg'') = Some name \<longrightarrow> map_of (COLORMAP E) name \<noteq> None"
    using fg k2(2) by simp
  from check_fg_valid [OF this] obtain s3 where cf: "check_fg E s2 = Inr s3" ..
  note k3 = check_fg_Inr [OF cf]
  have "\<forall>name. style s3 (ascii ''bg'') = Some name \<longrightarrow> map_of (COLORMAP E) name \<noteq> None"
    using bg k2(2) k3(2) by simp
  from check_bg_valid [OF this] obtain s4 where cb: "check_bg E s3 = Inr s4" ..
  note k4 = check_bg_Inr [OF cb]
  have init: "Slide_init E es = check_conflicts s4"
    by (simp add: Slide_init_def scan ce cf cb)
  have e4: "has_effect s4 = (style s (ascii ''effect'') \<noteq> None)"
    using k2(1) k3(1) k4(1) by simp
  have s4: "style s4 = style s"
    using k2(2) k3(2) k4(2) by simp
  have c4: "has_code s4 = (\<exists>e\<in>set es. ecls e = BlockCode)"
    using nc k2(5) k3(5) k4(5) by simp
  show ?thesis
    unfolding init check_conflicts_cases e4 s4 c4 by simp
qed

lemma ex_conflict_style:
  "BlockHtml_style ex_env (eobj (ex_html ''effect=stars fg=red'')) =
     Inr (map_of [(ascii ''fg'', ascii ''red''), (ascii ''effect'', ascii ''stars'')])"
  by (simp add: BlockHtml_style_def ex_html_def get_text_def getitem_def match_at_def
        word_char_def ascii_alnum_def ascii_def Let_def)

lemma ex_stars_style:
  "BlockHtml_style ex_env (eobj (ex_html ''effect=stars'')) =
     Inr (map_of [(ascii ''effect'', ascii ''stars'')])"
  by (simp add: BlockHtml_style_def ex_html_def get_text_def getitem_def match_at_def
        word_char_def ascii_alnum_def ascii_def Let_def)

lemma etype_ex_html: "etype (ex_html t) = ''html''"
  by (simp add: etype_def ex_html_def)

theorem Slide_incompatible_style_witness:
  "scan_elements ex_env ex_conflict (new_slide ex_conflict) = Inr ex_conflict_scan
   \<and> style ex_conflict_scan (ascii ''effect'') = Some (ascii ''stars'')
   \<and> ascii ''stars'' \<in> set (EFFECTS ex_env)
   \<and> style ex_conflict_scan (ascii ''fg'') = Some (ascii ''red'')
   \<and> map_of (COLORMAP ex_env) (ascii ''red'') = Some 1
   \<and> style ex_conflict_scan (ascii ''bg'') = None
   \<and> Slide_init ex_env ex_conflict = Inl ValueError_effects_colors"
proof -
  have scan: "scan_elements ex_env ex_conflict (new_slide ex_conflict) = Inr ex_conflict_scan"
    by (simp add: ex_conflict_def [symmetric] ex_conflict_scan_def)
       (simp add: ex_conflict_def scan_element_def etype_ex_html ex_conflict_style Let_def)
  have e: "style ex_conflict_scan (ascii ''effect'') = Some (ascii ''stars'')"
    by (simp add: ex_conflict_scan_def ascii_def)
  have f: "style ex_conflict_scan (ascii ''fg'') = Some (ascii ''red'')"
    by (simp add: ex_conflict_scan_def ascii_def)
  have b: "style ex_conflict_scan (ascii ''bg'') = None"
    by (simp add: ex_conflict_scan_def ascii_def)
  have ev: "ascii ''stars'' \<in> set (EFFECTS ex_env)"
    by (simp add: ex_env_def)
  have fv: "map_of (COLORMAP ex_env) (ascii ''red'') = Some 1"
    by (simp add: ex_env_def ascii_def)
  have h1: "\<forall>name. style ex_conflict_scan (ascii ''effect'') = Some name \<longrightarrow>
              name \<in> set (EFFECTS ex_env)"
    using e ev by simp
  have h2: "\<forall>name. style ex_conflict_scan (ascii ''fg'') = Some name \<longrightarrow>
              map_of (COLORMAP ex_env) name \<noteq> None"
    using f fv by simp
  have h3: "\<forall>name. style ex_conflict_scan (ascii ''bg'') = Some name \<longrightarrow>
              map_of (COLORMAP ex_env) name \<noteq> None"
    using b by simp
  show ?thesis
    using scan e f b ev fv Slide_incompatible_style [OF scan h1 h2 h3] by simp
qed

theorem Slide_colours_witness:
  "Slide_init ex_env ex_stars = Inr ex_stars_slide
   \<and> has_effect ex_stars_slide \<and> fg_color ex_stars_slide = 7 \<and> bg_color ex_stars_slide = 0
   \<and> Slide_init ex_env ex_plain = Inr (new_slide ex_plain)
   \<and> ex_plain = [ex_text_element] \<and> ecls ex_text_element = Text
   \<and> \<not> has_effect (new_slide ex_plain)
   \<and> fg_color (new_slide ex_plain) = 0 \<and> bg_color (new_slide ex_plain) = 7"
proof -
  have scan: "scan_elements ex_env ex_stars (new_slide ex_stars) =
      Inr ((new_slide ex_stars)\<lparr>has_style := True,
             style := map_of [(ascii ''effect'', ascii ''stars'')]\<rparr>)"
    by (simp add: ex_stars_def scan_element_def etype_ex_html ex_stars_style Let_def)
  have a: "Slide_init ex_env ex_stars = Inr ex_stars_slide"
    unfolding Slide_init_def scan
    by (simp add: check_effect_def check_fg_def check_bg_def check_conflicts_def
          ex_stars_slide_def ex_env_def ascii_def new_slide_def)
  have b: "Slide_init ex_env ex_plain = Inr (new_slide ex_plain)"
    by (simp add: Slide_init_def ex_plain_def ex_text_element_def scan_element_def etype_def Let_def
          check_effect_def check_fg_def check_bg_def check_conflicts_def new_slide_def)
  have c: "\<forall>e\<in>set ex_plain. ecls e \<noteq> BlockHtml"
    by (simp add: ex_plain_def ex_text_element_def)
  have d: "has_effect ex_stars_slide"
    by (simp add: ex_stars_slide_def)
  have e: "\<not> has_effect (new_slide ex_plain)"
    by (simp add: new_slide_def)
  have f: "ex_plain = [ex_text_element]" "ecls ex_text_element = Text"
    by (simp_all add: ex_plain_def ex_text_element_def)
  show ?thesis
    using a b c d e f Slide_colours [OF a] Slide_colours [OF b] by blast
qed

section \<open>Markdown.parse: slides and unsupported nodes\<close>

lemma eval_unbound: "unbound name \<Longrightarrow> eval el name = Inl NameError"
  by (simp add: eval_def unbound_def)

lemma adapt_unbound:
  assumes "element_name (ntype obj) = Inr name" and "unbound name"
  shows "adapt E obj st = Inl (ValueError_element (sliden st + 1) name)"
  using assms by (simp add: adapt_def eval_unbound)

lemma adapt_slides:
  assumes "adapt E obj st = Inr st'"
  shows "slides st' = slides st \<and> sliden st' = sliden st"
  using assms
  by (auto simp: adapt_def split: sum.splits val.splits if_splits)

lemma adapt_child_slides:
  assumes "adapt_child E child st = Inr st'"
  shows "slides st' = slides st \<and> sliden st' = sliden st"
  using assms
  by (auto simp: adapt_child_def dest: adapt_slides split: sum.splits option.splits if_splits)

lemma adapt_children_slides:
  assumes "adapt_children E cs st = Inr st'"
  shows "slides st' = slides st \<and> sliden st' = sliden st"
  using assms
proof (induction cs arbitrary: st)
  case Nil
  then show ?case by simp
next
  case (Cons c cs)
  from Cons.prems obtain st1 where a: "adapt_child E c st = Inr st1"
    and b: "adapt_children E cs st1 = Inr st'"
    by (auto split: sum.splits)
  from adapt_child_slides [OF a] Cons.IH [OF b] show ?case by simp
qed

lemma append_slide_count:
  assumes "append_slide E st = Inr st'"
  shows "length (slides st') = length (slides st) + 1 \<and> sliden st' = sliden st + 1"
  using assms by (auto simp: append_slide_def split: sum.splits)

lemma loop_body_count:
  assumes "loop_body E obj b st = Inr st'" and "sliden st = len (slides st)"
  shows "sliden st' = len (slides st')"
proof -
  have ap: "append_slide E s = Inr s' \<Longrightarrow> sliden s = len (slides s) \<Longrightarrow>
            sliden s' = len (slides s')" for s s'
    using append_slide_count [of E s s'] by (simp add: len_def)
  have fl: "flush E s = Inr s' \<Longrightarrow> sliden s = len (slides s) \<Longrightarrow>
            sliden s' = len (slides s')" for s s'
    using ap by (auto simp: flush_def split: sum.splits)
  have ad: "(if ntype obj = ascii ''paragraph'' then adapt_paragraph E obj st else adapt E obj st)
            = Inr s \<Longrightarrow> slides s = slides st \<and> sliden s = sliden st" for s
    by (auto simp: adapt_paragraph_def getitem_def dest: adapt_slides adapt_children_slides
          split: if_splits option.splits)
  show ?thesis
  proof (cases "ntype obj = ascii ''newline''")
    case True
    then show ?thesis using assms by (simp add: loop_body_def)
  next
    case nl: False
    show ?thesis
    proof (cases "ntype obj = ascii ''thematic_break'' \<and> buffer st \<noteq> []")
      case True
      then show ?thesis using assms nl fl by (simp add: loop_body_def)
    next
      case False
      with nl assms(1) obtain s where s: "(if ntype obj = ascii ''paragraph''
            then adapt_paragraph E obj st else adapt E obj st) = Inr s"
        and r: "(if b then append_slide E s else Inr s) = Inr st'"
        by (auto simp: loop_body_def split: sum.splits)
      from ad [OF s] assms(2) have "sliden s = len (slides s)" by simp
      with r ap show ?thesis by (auto split: if_splits)
    qed
  qed
qed

lemma passes_count:
  assumes "passes E pre st = Inr st'" and "sliden st = len (slides st)"
  shows "sliden st' = len (slides st')"
  using assms
proof (induction pre arbitrary: st)
  case Nil
  then show ?case by simp
next
  case (Cons obj pre)
  from Cons.prems(1) obtain st1 where a: "loop_body E obj False st = Inr st1"
    and b: "passes E pre st1 = Inr st'"
    by (auto split: sum.splits)
  from loop_body_count [OF a Cons.prems(2)] Cons.IH [OF b] show ?case by simp
qed

lemma parse_loop_append:
  "post \<noteq> [] \<Longrightarrow> parse_loop E (pre @ post) st =
     (case passes E pre st of Inl x \<Rightarrow> Inl x | Inr st' \<Rightarrow> parse_loop E post st')"
  by (induction pre arbitrary: st) (auto split: sum.splits)

lemma parse_fails_at:
  assumes "passes E pre initial = Inr st" and "loop_body E obj (post = []) st = Inl x"
  shows "parse E (pre @ obj # post) = Inl x"
  using assms by (simp add: parse_def parse_loop_append)

lemma initial_count: "sliden initial = len (slides initial)"
  by (simp add: initial_def len_def)

lemma adapt_children_append:
  "adapt_children E (a @ b) st =
     (case adapt_children E a st of Inl x \<Rightarrow> Inl x | Inr st' \<Rightarrow> adapt_children E b st')"
  by (induction a arbitrary: st) (auto split: sum.splits)

lemma tags_distinct:
  "ascii ''paragraph'' \<noteq> ascii ''newline''" "ascii ''paragraph'' \<noteq> ascii ''thematic_break''"
  by (simp_all add: ascii_def)

lemma unsupported_top:
  assumes pre: "passes E pre initial = Inr st"
    and name: "element_name (ntype obj) = Inr name" and ub: "unbound name"
    and tag: "ntype obj \<noteq> ascii ''newline''" "ntype obj \<noteq> ascii ''paragraph''"
      "ntype obj \<noteq> ascii ''thematic_break''"
  shows "parse E (pre @ obj # post) = Inl (ValueError_element (len (slides st) + 1) name)"
proof -
  have n: "sliden st = len (slides st)"
    using passes_count [OF pre initial_count] .
  have "adapt E obj st = Inl (ValueError_element (sliden st + 1) name)"
    using name ub by (rule adapt_unbound)
  then have "loop_body E obj (post = []) st = Inl (ValueError_element (sliden st + 1) name)"
    using tag by (simp add: loop_body_def)
  from parse_fails_at [OF pre this] n show ?thesis
    by simp
qed

lemma unsupported_child:
  assumes pre: "passes E pre initial = Inr st"
    and par: "ntype obj = ascii ''paragraph''" "nchildren obj = Some (cpre @ child # cpost)"
    and before: "adapt_children E cpre st = Inr st'"
    and name: "element_name (ntype child) = Inr name" and ub: "unbound name"
    and tag: "ntype child \<noteq> ascii ''image''"
  shows "parse E (pre @ obj # post) = Inl (ValueError_element (len (slides st) + 1) name)"
proof -
  have n: "sliden st = len (slides st)"
    using passes_count [OF pre initial_count] .
  have c: "adapt E child st' = Inl (ValueError_element (sliden st' + 1) name)"
    using name ub by (rule adapt_unbound)
  have s: "sliden st' = sliden st"
    using adapt_children_slides [OF before] by simp
  have "adapt_child E child st' = Inl (ValueError_element (sliden st + 1) name)"
    using tag c s by (simp add: adapt_child_def)
  then have "adapt_paragraph E obj st = Inl (ValueError_element (sliden st + 1) name)"
    using par before by (simp add: adapt_paragraph_def getitem_def adapt_children_append)
  then have "loop_body E obj (post = []) st = Inl (ValueError_element (sliden st + 1) name)"
    using par by (simp add: loop_body_def tags_distinct)
  from parse_fails_at [OF pre this] n show ?thesis
    by simp
qed

lemma unsupported_tags_unbound:
  "list_all (\<lambda>tag. \<exists>name. element_name tag = Inr name \<and> unbound name) unsupported_tags"
  by (simp add: unsupported_tags_def element_name_def title_def ascii_def is_lower_def
        is_upper_def unbound_def class_name_def ascii_alnum_def module_names_def
        builtin_names_def)

lemma unsupported_tags_outside:
  "list_all (\<lambda>tag. tag \<notin> set supported_tags) unsupported_tags"
  by (simp add: unsupported_tags_def supported_tags_def ascii_def)

lemma outside_supported:
  assumes "tag \<notin> set supported_tags"
  shows "tag \<noteq> ascii ''newline''" and "tag \<noteq> ascii ''paragraph''"
    and "tag \<noteq> ascii ''thematic_break''" and "tag \<noteq> ascii ''image''"
  using assms by (auto simp: supported_tags_def)

text \<open>
  C3. Let the loop reach a node in the state \<open>st\<close>, and let \<open>tag\<close> be one of the tags of
  the parser's nodes outside the supported set. Its class name, the tag in title case
  without underscores, is bound nowhere that \<open>eval\<close> looks. If the node has this tag,
  \<open>parse\<close> fails with the \<open>ValueError\<close> that names the class name and the number of the
  slide being filled, which is the number of slides appended so far plus one. If the
  node is a paragraph, the same holds when one of its children has this tag, the
  children before it being adapted without error.
\<close>

theorem unsupported_element_kind:
  assumes pre: "passes E pre initial = Inr st" and tag: "tag \<in> set unsupported_tags"
  shows "tag \<notin> set supported_tags
     \<and> (\<exists>name. element_name tag = Inr name
          \<and> (ntype obj = tag \<longrightarrow>
               parse E (pre @ obj # post) =
                 Inl (ValueError_element (len (slides st) + 1) name))
          \<and> (ntype obj = ascii ''paragraph'' \<and> nchildren obj = Some (cpre @ child # cpost)
               \<and> adapt_children E cpre st = Inr st' \<and> ntype child = tag \<longrightarrow>
               parse E (pre @ obj # post) =
                 Inl (ValueError_element (len (slides st) + 1) name)))"
proof -
  have out: "tag \<notin> set supported_tags"
    using unsupported_tags_outside tag by (simp add: list_all_iff)
  obtain name where name: "element_name tag = Inr name" and ub: "unbound name"
    using unsupported_tags_unbound tag by (auto simp: list_all_iff)
  note o = outside_supported [OF out]
  have top: "ntype obj = tag \<longrightarrow>
      parse E (pre @ obj # post) = Inl (ValueError_element (len (slides st) + 1) name)"
    using unsupported_top [OF pre _ ub, of obj post] name o by simp
  have inner: "ntype obj = ascii ''paragraph'' \<and> nchildren obj = Some (cpre @ child # cpost)
      \<and> adapt_children E cpre st = Inr st' \<and> ntype child = tag \<longrightarrow>
      parse E (pre @ obj # post) = Inl (ValueError_element (len (slides st) + 1) name)"
    using unsupported_child [OF pre _ _ _ _ ub, of obj cpre child cpost st' post] name o
    by simp
  show ?thesis
    using out name top inner by blast
qed

lemma element_name_supported:
  "element_name (ascii ''heading'') = Inr (ascii ''Heading'')"
  "element_name (ascii ''text'') = Inr (ascii ''Text'')"
  "element_name (ascii ''list'') = Inr (ascii ''List'')"
  "element_name (ascii ''block_code'') = Inr (ascii ''BlockCode'')"
  "element_name (ascii ''image'') = Inr (ascii ''Image'')"
  "element_name (ascii ''block_html'') = Inr (ascii ''BlockHtml'')"
  "element_name (ascii ''thematic_break'') = Inr (ascii ''ThematicBreak'')"
  "element_name (ascii ''block_quote'') = Inr (ascii ''BlockQuote'')"
  "element_name (ascii ''strong'') = Inr (ascii ''Strong'')"
  "element_name (ascii ''codio'') = Inr (ascii ''Codio'')"
  by (simp_all add: element_name_def title_def ascii_def is_lower_def is_upper_def)

lemma eval_classes:
  "eval None (ascii ''Heading'') = Inr (Class Heading)"
  "eval (Some Heading) (ascii ''Heading'') = Inr (Class Heading)"
  "eval (Some Heading) (ascii ''Text'') = Inr (Class Text)"
  "eval None (ascii ''Text'') = Inr (Class Text)"
  "eval None (ascii ''Codio'') = Inr (Class Codio)"
  "eval (Some Heading) (ascii ''BlockCode'') = Inr (Class BlockCode)"
  by (simp_all add: eval_def class_name_def ascii_def is_upper_def ascii_alnum_def
        module_names_def)

lemma adapt_ex_heading:
  "Element st = None \<or> Element st = Some Heading \<Longrightarrow>
   adapt E ex_heading st =
     Inr (st\<lparr>buffer := buffer st @ [ex_heading_element], Element := Some Heading\<rparr>)"
  by (auto simp: adapt_def ex_heading_def element_name_supported eval_classes construct_def
        ex_heading_element_def)

lemma Slide_init_ex_heading: "Slide_init E [ex_heading_element] = Inr ex_heading_slide"
  by (simp add: Slide_init_def ex_heading_element_def scan_element_def etype_def Let_def
        check_effect_def check_fg_def check_bg_def check_conflicts_def new_slide_def
        ex_heading_slide_def)

lemma ntype_ex:
  "ntype ex_heading = ascii ''heading''" "ntype ex_break = ascii ''thematic_break''"
  "ntype ex_newline = ascii ''newline''" "ntype ex_quote = ascii ''block_quote''"
  "ntype ex_paragraph = ascii ''paragraph''" "ntype ex_codio_tag = ascii ''codio''"
  by (simp_all add: ex_heading_def ex_break_def ex_newline_def ex_quote_def ex_paragraph_def
        ex_codio_tag_def)

lemma tags_distinct2:
  "ascii ''heading'' \<noteq> ascii ''newline''" "ascii ''heading'' \<noteq> ascii ''thematic_break''"
  "ascii ''heading'' \<noteq> ascii ''paragraph''" "ascii ''thematic_break'' \<noteq> ascii ''newline''"
  "ascii ''block_quote'' \<noteq> ascii ''newline''" "ascii ''block_quote'' \<noteq> ascii ''thematic_break''"
  "ascii ''block_quote'' \<noteq> ascii ''paragraph''"
  "ascii ''codio'' \<noteq> ascii ''newline''" "ascii ''codio'' \<noteq> ascii ''thematic_break''"
  "ascii ''codio'' \<noteq> ascii ''paragraph''"
  by (simp_all add: ascii_def)

lemma loop_body_ex_heading:
  "Element st = None \<or> Element st = Some Heading \<Longrightarrow>
   loop_body E ex_heading False st =
     Inr (st\<lparr>buffer := buffer st @ [ex_heading_element], Element := Some Heading\<rparr>)"
  by (simp add: loop_body_def ntype_ex tags_distinct2 adapt_ex_heading)

lemma passes_ex_state: "passes ex_env [ex_heading, ex_break] initial = Inr ex_state"
  by (simp add: loop_body_ex_heading initial_def)
     (simp add: loop_body_def ntype_ex tags_distinct2 flush_def append_slide_def
        Slide_init_ex_heading ex_state_def)

lemma adapt_children_ex_text: "adapt_children ex_env [ex_text_node] initial = Inr ex_text_state"
proof -
  have "ascii ''text'' \<noteq> ascii ''image''"
    by (simp add: ascii_def)
  then show ?thesis
    by (simp add: adapt_child_def adapt_def ex_text_node_def element_name_supported
          eval_classes construct_def initial_def ex_text_state_def ex_text_element_def)
qed

theorem unsupported_element_kind_witness:
  "passes ex_env [ex_heading, ex_break] initial = Inr ex_state
   \<and> ascii ''block_quote'' \<in> set unsupported_tags
   \<and> ntype ex_quote = ascii ''block_quote''
   \<and> parse ex_env ([ex_heading, ex_break] @ ex_quote # []) =
       Inl (ValueError_element 2 (ascii ''BlockQuote''))
   \<and> ascii ''strong'' \<in> set unsupported_tags
   \<and> ntype ex_paragraph = ascii ''paragraph''
   \<and> nchildren ex_paragraph = Some ([ex_text_node] @ ex_strong # [])
   \<and> adapt_children ex_env [ex_text_node] initial = Inr ex_text_state
   \<and> ntype ex_strong = ascii ''strong''
   \<and> parse ex_env ([] @ ex_paragraph # []) = Inl (ValueError_element 1 (ascii ''Strong''))"
proof -
  have p1: "passes ex_env [ex_heading, ex_break] initial = Inr ex_state"
    by (rule passes_ex_state)
  have p2: "passes ex_env [] initial = Inr initial"
    by simp
  have m1: "ascii ''block_quote'' \<in> set unsupported_tags"
    and m2: "ascii ''strong'' \<in> set unsupported_tags"
    by (simp_all add: unsupported_tags_def)
  have t1: "ntype ex_quote = ascii ''block_quote''"
    by (simp add: ntype_ex)
  have t2: "ntype ex_paragraph = ascii ''paragraph''" and t3: "ntype ex_strong = ascii ''strong''"
    by (simp_all add: ntype_ex ex_strong_def)
  have c: "nchildren ex_paragraph = Some ([ex_text_node] @ ex_strong # [])"
    by (simp add: ex_paragraph_def)
  have l1: "len (slides ex_state) + 1 = 2" and l2: "len (slides initial) + 1 = 1"
    by (simp_all add: ex_state_def initial_def len_def)
  have r1: "parse ex_env ([ex_heading, ex_break] @ ex_quote # []) =
       Inl (ValueError_element 2 (ascii ''BlockQuote''))"
    using unsupported_element_kind [OF p1 m1, where obj = ex_quote and post = "[]"] t1 l1
    by (simp add: element_name_supported)
  have r2: "parse ex_env ([] @ ex_paragraph # []) = Inl (ValueError_element 1 (ascii ''Strong''))"
    using unsupported_element_kind [OF p2 m2, where obj = ex_paragraph and post = "[]"
        and cpre = "[ex_text_node]" and child = ex_strong and cpost = "[]"
        and st' = ex_text_state]
      t2 t3 c l2 adapt_children_ex_text
    by (simp add: element_name_supported)
  show ?thesis
    using p1 m1 t1 r1 m2 t2 c adapt_children_ex_text t3 r2 by simp
qed

text \<open>
  A node with the type tag \<open>codio\<close>, which the parser gives no node, would not be
  reported: its class name is \<open>Codio\<close>, which the module binds.
\<close>

lemma codio_tag_not_reported: "parse ex_env [ex_codio_tag] = Inr [ex_codio_slide]"
  by (simp add: parse_def initial_def loop_body_def ntype_ex tags_distinct2 adapt_def
        element_name_supported eval_classes construct_def append_slide_def Slide_init_def
        scan_element_def etype_def Let_def check_effect_def check_fg_def check_bg_def
        check_conflicts_def new_slide_def ex_codio_slide_def)

lemma loop_body_ex_heading_last:
  "Element st = None \<or> Element st = Some Heading \<Longrightarrow> buffer st = [] \<Longrightarrow>
   loop_body E ex_heading True st =
     Inr (st\<lparr>slides := slides st @ [ex_heading_slide], sliden := sliden st + 1,
            buffer := [ex_heading_element], Element := Some Heading\<rparr>)"
  by (simp add: loop_body_def ntype_ex tags_distinct2 adapt_ex_heading append_slide_def
        Slide_init_ex_heading)

lemma loop_body_ex_break:
  "buffer st = [ex_heading_element] \<Longrightarrow>
   loop_body E ex_break b st =
     Inr (st\<lparr>slides := slides st @ [ex_heading_slide], sliden := sliden st + 1, buffer := []\<rparr>)"
  by (simp add: loop_body_def ntype_ex tags_distinct2 flush_def append_slide_def
        Slide_init_ex_heading)

lemma loop_body_ex_newline: "loop_body E ex_newline b st = Inr st"
  by (simp add: loop_body_def ntype_ex)

lemma loop_body_ex_fence_last:
  "Element st = Some Heading \<Longrightarrow> buffer st = [] \<Longrightarrow>
   loop_body ex_env ex_fence True st =
     Inr (st\<lparr>slides := slides st @ [ex_fence_slide], sliden := sliden st + 1,
            buffer := [\<lparr>ecls = BlockCode, eobj = Ast ex_fence\<rparr>],
            Element := Some BlockCode\<rparr>)"
proof -
  have t: "ascii ''block_code'' \<noteq> ascii ''newline''"
    "ascii ''block_code'' \<noteq> ascii ''thematic_break''"
    "ascii ''block_code'' \<noteq> ascii ''paragraph''"
    by (simp_all add: ascii_def)
  have s: "Slide_init ex_env [\<lparr>ecls = BlockCode, eobj = Ast ex_fence\<rparr>] = Inr ex_fence_slide"
    by (simp add: Slide_init_def scan_element_def etype_def Let_def check_effect_def
          check_fg_def check_bg_def check_conflicts_def new_slide_def ex_fence_slide_def)
  assume "Element st = Some Heading" and "buffer st = []"
  then show ?thesis
    using t s
    by (simp add: loop_body_def ex_fence_def adapt_def element_name_supported eval_classes
          construct_def append_slide_def)
qed

lemma loop_body_ex_fence:
  "Element st = Some Heading \<Longrightarrow>
   loop_body ex_env ex_fence False st =
     Inr (st\<lparr>buffer := buffer st @ [\<lparr>ecls = BlockCode, eobj = Ast ex_fence\<rparr>],
            Element := Some BlockCode\<rparr>)"
proof -
  have t: "ascii ''block_code'' \<noteq> ascii ''newline''"
    "ascii ''block_code'' \<noteq> ascii ''thematic_break''"
    "ascii ''block_code'' \<noteq> ascii ''paragraph''"
    by (simp_all add: ascii_def)
  assume "Element st = Some Heading"
  then show ?thesis
    using t
    by (simp add: loop_body_def ex_fence_def adapt_def element_name_supported eval_classes
          construct_def)
qed

lemma thematic_break_flushes:
  assumes "ntype obj = ascii ''thematic_break''" and "buffer st \<noteq> []"
    and "Slide_init E (buffer st) = Inr s"
  shows "loop_body E obj b st =
     Inr (st\<lparr>slides := slides st @ [s], sliden := sliden st + 1, buffer := []\<rparr>)"
proof -
  have "ascii ''thematic_break'' \<noteq> ascii ''newline''"
    by (simp add: ascii_def)
  then show ?thesis
    using assms by (simp add: loop_body_def flush_def append_slide_def)
qed

lemma last_node_flushes:
  assumes "passes E pre initial = Inr st" and "ntype obj \<noteq> ascii ''newline''"
    and "\<not> (ntype obj = ascii ''thematic_break'' \<and> buffer st \<noteq> [])"
    and "(if ntype obj = ascii ''paragraph'' then adapt_paragraph E obj st
          else adapt E obj st) = Inr st'"
    and "Slide_init E (buffer st') = Inr s"
  shows "parse E (pre @ [obj]) = Inr (slides st @ [s])"
proof -
  have same: "slides st' = slides st"
    using assms(4)
    by (auto simp: adapt_paragraph_def getitem_def dest: adapt_slides adapt_children_slides
          split: if_splits option.splits)
  have "loop_body E obj True st =
      Inr (st'\<lparr>slides := slides st' @ [s], sliden := sliden st' + 1\<rparr>)"
    using assms(2,3,4,5) by (auto simp: loop_body_def append_slide_def)
  then show ?thesis
    using assms(1) same by (simp add: parse_def parse_loop_append)
qed

text \<open>
  C1. A thematic break met with a non-empty buffer appends a slide and empties the
  buffer, and a last node that is no newline node appends the slide of the final
  buffer, as the two lemmas above say. Three headings with a thematic break after the
  first and after the second give three slides. The same document followed by a
  newline node gives two: the \<open>continue\<close> of a newline node leaves the loop body before
  the test for the last node, so the buffer that holds the third heading is never made
  a slide. A heading followed by a newline node gives no slide at all. In the same way
  a heading, a thematic break and a code block give two slides, and one when a newline
  node follows the code block.
\<close>

theorem trailing_newline_drops_slide:
  "parse ex_env [ex_heading, ex_break, ex_heading, ex_break, ex_heading] =
     Inr [ex_heading_slide, ex_heading_slide, ex_heading_slide]
   \<and> parse ex_env [ex_heading, ex_break, ex_heading, ex_break, ex_heading, ex_newline] =
     Inr [ex_heading_slide, ex_heading_slide]
   \<and> parse ex_env [ex_heading, ex_newline] = Inr []
   \<and> parse ex_env [ex_heading, ex_break, ex_fence] = Inr [ex_heading_slide, ex_fence_slide]
   \<and> parse ex_env [ex_heading, ex_break, ex_fence, ex_newline] = Inr [ex_heading_slide]"
  by (simp add: parse_def initial_def loop_body_ex_heading loop_body_ex_heading_last
        loop_body_ex_break loop_body_ex_newline loop_body_ex_fence loop_body_ex_fence_last)

text \<open>
  In general, when the last node is a newline node, the slides are those appended by
  the passes before it.
\<close>

lemma parse_trailing_newline:
  assumes "ntype obj = ascii ''newline''"
  shows "parse E (pre @ [obj]) =
     (case passes E pre initial of Inl x \<Rightarrow> Inl x | Inr st \<Rightarrow> Inr (slides st))"
  using assms by (simp add: parse_def parse_loop_append loop_body_def split: sum.splits)


end
